theory Spec2Isabelle
  imports Complex_Main "HOL-Library.Word" "HOL-Library.Sublist" "HOL-Library.Monad_Syntax"
begin

text \<open>
  A shallow embedding of the client-side logic of the family gallery pages: the invite
  token generator, the visibility and expiry rules of the manage page, the days-left label
  of the public gallery, the token gate of the invite page, the artwork deletion handler
  and the made-at validator of the upload page.

  Conventions.
  \<^item> A JavaScript string is a \<open>string\<close>: a list of code units, each below 256.
  \<^item> A time value is an \<open>int\<close>: milliseconds since the epoch, as \<open>Date.now()\<close> and
    \<open>getTime()\<close> give it, of magnitude at most 8640000000000000. \<open>NaN\<close> is \<open>None\<close>.
    Sums of a time value and fourteen days are exact in double precision; the difference
    of two time values is rounded as a double is (\<open>double_of_difference\<close>). The clock is
    taken to be more than fourteen days before the last time value (the year 275760),
    where \<open>toISOString\<close> would throw.
  \<^item> What the platform or the backend answers is an argument of the function that asks:
    \<open>getTime s\<close> stands for \<open>new Date(s).getTime()\<close>, \<open>toISOString t\<close> for
    \<open>new Date(t).toISOString()\<close>, \<open>now\<close> for \<open>Date.now()\<close>, and a remote call's
    error or data is passed in as its response.
  \<^item> A user-visible message is a constructor of a datatype, carrying the backend's error
    text where the source appends it.
\<close>

section \<open>Invite tokens (manage page, \<open>makeToken\<close>)\<close>

text \<open>
  \<^verbatim>\<open>
  function makeToken(len = 24) {
    const alphabet = "ABCDEFGHJKLMNPQRSTUVWXYZabcdefghijkmnopqrstuvwxyz23456789";
    const bytes = new Uint8Array(len);
    crypto.getRandomValues(bytes);
    let out = "";
    for (let i = 0; i < bytes.length; i++) out += alphabet[bytes[i] % alphabet.length];
    return out;
  }
  \<close>
  The random source is the function \<open>rnd\<close>: \<open>rnd i\<close> is the byte that
  \<open>crypto.getRandomValues\<close> stores at index \<open>i\<close> of the array; a byte is an
  \<open>8 word\<close>, as an element of a \<open>Uint8Array\<close> is. Indexing a
  JavaScript string out of range gives \<open>undefined\<close>, which \<open>+=\<close> appends as the text
  "undefined"; \<open>char_at\<close> keeps that branch.
\<close>

definition alphabet :: string where
  "alphabet = ''ABCDEFGHJKLMNPQRSTUVWXYZabcdefghijkmnopqrstuvwxyz23456789''"

definition char_at :: "string \<Rightarrow> nat \<Rightarrow> string" where
  "char_at s i = (if i < length s then [s ! i] else ''undefined'')"

definition token_index :: "8 word \<Rightarrow> nat" where
  "token_index b = unat b mod length alphabet"

fun token_loop :: "8 word list \<Rightarrow> string \<Rightarrow> string" where
  "token_loop [] out = out"
| "token_loop (b # bs) out = token_loop bs (out @ char_at alphabet (token_index b))"

definition getRandomValues :: "(nat \<Rightarrow> 8 word) \<Rightarrow> nat \<Rightarrow> 8 word list" where
  "getRandomValues rnd len = map rnd [0..<len]"

definition makeToken :: "(nat \<Rightarrow> 8 word) \<Rightarrow> nat \<Rightarrow> string" where
  "makeToken rnd len = token_loop (getRandomValues rnd len) []"

text \<open>The call site in \<open>createOrRegenerateInvite\<close>: \<^verbatim>\<open>const next = makeToken(28);\<close>\<close>

definition invite_token :: "(nat \<Rightarrow> 8 word) \<Rightarrow> string" where
  "invite_token rnd = makeToken rnd 28"

text \<open>All byte values, and the number of them that select a given alphabet position.\<close>

definition all_bytes :: "8 word list" where
  "all_bytes = map of_nat [0..<256]"

text \<open>
  \<open>symbol_count c\<close> is the number of byte values for which the token of length one is the
  symbol \<open>c\<close>: over a uniformly random byte, \<open>c\<close> is drawn with probability
  \<open>symbol_count c / 256\<close>.
\<close>

definition symbol_count :: "char \<Rightarrow> nat" where
  "symbol_count c = length (filter (\<lambda>b. makeToken (\<lambda>i. b) 1 = [c]) all_bytes)"

section \<open>Strings\<close>

text \<open>
  \<open>trim\<close> removes white space and line terminators at both ends; the regular
  expression class \<open>\s\<close> is the same set of code units. Below 256 these are tab, line
  feed, vertical tab, form feed, carriage return, space and the no-break space.
\<close>

definition is_space :: "char \<Rightarrow> bool" where
  "is_space c = ((of_char c :: nat) \<in> {9, 10, 11, 12, 13, 32, 160})"

definition trim :: "string \<Rightarrow> string" where
  "trim s = rev (dropWhile is_space (rev (dropWhile is_space s)))"

definition startsWith :: "string \<Rightarrow> string \<Rightarrow> bool" where
  "startsWith s p = prefix p s"

text \<open>\<open>s.indexOf(m)\<close>: the first position at which \<open>m\<close> occurs, \<open>None\<close> for -1.\<close>

fun indexOf :: "string \<Rightarrow> string \<Rightarrow> nat option" where
  "indexOf [] m = (if m = [] then Some 0 else None)"
| "indexOf (c # cs) m =
     (if prefix m (c # cs) then Some 0 else map_option Suc (indexOf cs m))"

text \<open>\<open>s.split("/").pop()\<close>: the part of \<open>s\<close> after its last slash, all of \<open>s\<close> without one.\<close>

definition split_pop :: "string \<Rightarrow> string" where
  "split_pop s = rev (takeWhile (\<lambda>c. c \<noteq> CHR ''/'') (rev s))"

section \<open>Artworks: visibility and expiry (manage page)\<close>

text \<open>
  \<^verbatim>\<open>
  type Artwork = { id: string; kid_name: string; title: string; private_image_path: string;
    created_at: string; is_public: boolean; public_until: string | null;
    artwork_made_at: string | null; };
  const TWO_WEEKS_MS = 14 * 24 * 60 * 60 * 1000;
  \<close>
\<close>

record Artwork =
  id' :: string
  kid_name :: string
  title :: string
  private_image_path :: string
  created_at :: string
  is_public :: bool
  public_until :: "string option"
  artwork_made_at :: "string option"

definition TWO_WEEKS_MS :: int where
  "TWO_WEEKS_MS = 14 * 24 * 60 * 60 * 1000"

text \<open>
  \<^verbatim>\<open>
  function isExpired(art: Artwork) {
    if (!art.is_public) return false;
    if (!art.public_until) return false;
    return new Date(art.public_until).getTime() <= Date.now();
  }
  \<close>
  \<open>!art.public_until\<close> holds for \<open>null\<close> and for the empty string. A comparison with
  \<open>NaN\<close> is false.
\<close>

definition isExpired :: "(string \<Rightarrow> int option) \<Rightarrow> int \<Rightarrow> Artwork \<Rightarrow> bool" where
  "isExpired getTime now art =
     (if \<not> is_public art then False
      else case public_until art of
        None \<Rightarrow> False
      | Some s \<Rightarrow>
          if s = [] then False
          else (case getTime s of None \<Rightarrow> False | Some t \<Rightarrow> t \<le> now))"

text \<open>
  The state \<open>StatusBadge\<close> shows: the private badge when \<open>!art.is_public\<close>, the expired
  badge when \<open>isExpired(art)\<close>, the public badge otherwise.
\<close>

datatype visibility = Private | PublicExpired | PublicActive

definition StatusBadge :: "(string \<Rightarrow> int option) \<Rightarrow> int \<Rightarrow> Artwork \<Rightarrow> visibility" where
  "StatusBadge getTime now art =
     (let expired = isExpired getTime now art in
      if \<not> is_public art then Private
      else if expired then PublicExpired
      else PublicActive)"

text \<open>
  The card of one artwork \<open>a\<close> in the list:
  \<^verbatim>\<open>
  const busy = busyId === a.id;
  const expired = isExpired(a);
  const extendEnabled = a.is_public && expired;
  ...
  <button onClick={() => extendEnabled && !busy && extendTwoWeeks(a)}
          disabled={!extendEnabled || busy} ...>
  \<close>
\<close>

definition busy :: "string option \<Rightarrow> Artwork \<Rightarrow> bool" where
  "busy busyId a = (busyId = Some (id' a))"

definition extendEnabled :: "(string \<Rightarrow> int option) \<Rightarrow> int \<Rightarrow> Artwork \<Rightarrow> bool" where
  "extendEnabled getTime now a =
     (let expired = isExpired getTime now a in is_public a \<and> expired)"

definition extend_disabled ::
  "(string \<Rightarrow> int option) \<Rightarrow> int \<Rightarrow> string option \<Rightarrow> Artwork \<Rightarrow> bool" where
  "extend_disabled getTime now busyId a =
     (\<not> extendEnabled getTime now a \<or> busy busyId a)"

definition extend_click_runs ::
  "(string \<Rightarrow> int option) \<Rightarrow> int \<Rightarrow> string option \<Rightarrow> Artwork \<Rightarrow> bool" where
  "extend_click_runs getTime now busyId a =
     (extendEnabled getTime now a \<and> \<not> busy busyId a)"

section \<open>The manage page: state, backend and handlers\<close>

text \<open>
  The payload of an \<open>update\<close> on the table of artworks:
  \<^verbatim>\<open>{ is_public: boolean; public_until: string | null }\<close>
\<close>

record payload =
  p_is_public :: bool
  p_public_until :: "string option"

text \<open>
  The backend, as far as the page sees it: the rows of the table of artworks, and the
  requests received, oldest first. An \<open>update\<close> or a \<open>delete\<close> that answers without an
  error has been applied to every row with the given id; one that answers with an error
  has changed nothing.
\<close>

datatype request =
    ArtworksUpdate payload string
  | ArtworksDelete string
  | ArtworksSelect string
  | StorageRemove string

record backend =
  rows :: "Artwork list"
  requests :: "request list"

definition apply_payload :: "payload \<Rightarrow> Artwork \<Rightarrow> Artwork" where
  "apply_payload p r = r\<lparr>is_public := p_is_public p, public_until := p_public_until p\<rparr>"

definition update_artworks :: "payload \<Rightarrow> string \<Rightarrow> string option \<Rightarrow> backend \<Rightarrow> backend" where
  "update_artworks p i err b =
     b\<lparr>requests := requests b @ [ArtworksUpdate p i],
       rows := (if err = None
                then map (\<lambda>r. if id' r = i then apply_payload p r else r) (rows b)
                else rows b)\<rparr>"

definition delete_artworks :: "string \<Rightarrow> string option \<Rightarrow> backend \<Rightarrow> backend" where
  "delete_artworks i err b =
     b\<lparr>requests := requests b @ [ArtworksDelete i],
       rows := (if err = None then filter (\<lambda>r. id' r \<noteq> i) (rows b) else rows b)\<rparr>"

definition remove_storage :: "string \<Rightarrow> backend \<Rightarrow> backend" where
  "remove_storage path b = b\<lparr>requests := requests b @ [StorageRemove path]\<rparr>"

definition select_artworks :: "string \<Rightarrow> backend \<Rightarrow> backend" where
  "select_artworks familyId b = b\<lparr>requests := requests b @ [ArtworksSelect familyId]\<rparr>"

text \<open>The messages \<open>setMsg\<close> shows, each with the backend's error text where it has one.\<close>

datatype notice =
    NoNotice
  | Loading
  | LoadFailed string
  | Changing
  | ChangeFailed string
  | Extending
  | ExtendFailed string
  | Deleting
  | PhotoDeleteFailed string
  | PhotoPathMissing
  | DbDeleteFailed string
  | Deleted

record page =
  items :: "Artwork list"
  msg :: notice
  busyId :: "string option"
  myFamilyId :: "string option"

text \<open>
  \<^verbatim>\<open>
  const load = async (familyId: string) => {
    setMsg("...");
    const { data, error } = await supabase.from("artworks").select(...)
      .eq("family_id", familyId).order("created_at", { ascending: false }).limit(200);
    if (error) { setMsg("... " + error.message); return; }
    setItems((data ?? []) as Artwork[]);
    setMsg("");
  };
  \<close>
  The response \<open>res\<close> is the error text or the rows the backend selected.
\<close>

definition load :: "string \<Rightarrow> string + Artwork list \<Rightarrow> page \<times> backend \<Rightarrow> page \<times> backend" where
  "load familyId res pb =
     (let (pg, b) = pb;
          pg1 = pg\<lparr>msg := Loading\<rparr>;
          b1 = select_artworks familyId b
      in case res of
           Inl e \<Rightarrow> (pg1\<lparr>msg := LoadFailed e\<rparr>, b1)
         | Inr data \<Rightarrow> (pg1\<lparr>items := data, msg := NoNotice\<rparr>, b1))"

text \<open>
  \<^verbatim>\<open>
  const togglePublic = async (art: Artwork) => {
    const next = !art.is_public;
    setBusyId(art.id);
    setMsg("...");
    const payload: { is_public: boolean; public_until: string | null } = {
      is_public: next,
      public_until: next ? toISO(new Date(Date.now() + TWO_WEEKS_MS)) : null,
    };
    const { error } = await supabase.from("artworks").update(payload).eq("id", art.id);
    if (error) { setMsg("... " + error.message); setBusyId(null); return; }
    if (myFamilyId) await load(myFamilyId);
    setBusyId(null);
    setMsg("");
  };
  \<close>
\<close>

definition togglePublic_payload :: "(int \<Rightarrow> string) \<Rightarrow> int \<Rightarrow> Artwork \<Rightarrow> payload" where
  "togglePublic_payload toISOString now art =
     (let next = \<not> is_public art in
      \<lparr>p_is_public = next,
       p_public_until = (if next then Some (toISOString (now + TWO_WEEKS_MS)) else None)\<rparr>)"

definition reload_after :: "string + Artwork list \<Rightarrow> page \<times> backend \<Rightarrow> page \<times> backend" where
  "reload_after res pb =
     (case myFamilyId (fst pb) of
        None \<Rightarrow> pb
      | Some f \<Rightarrow> if f = [] then pb else load f res pb)"

definition togglePublic ::
  "(int \<Rightarrow> string) \<Rightarrow> int \<Rightarrow> string option \<Rightarrow> string + Artwork list \<Rightarrow> Artwork
     \<Rightarrow> page \<times> backend \<Rightarrow> page \<times> backend" where
  "togglePublic toISOString now error res art pb =
     (let (pg, b) = pb;
          pg1 = pg\<lparr>busyId := Some (id' art), msg := Changing\<rparr>;
          p = togglePublic_payload toISOString now art;
          b1 = update_artworks p (id' art) error b
      in case error of
           Some e \<Rightarrow> (pg1\<lparr>msg := ChangeFailed e, busyId := None\<rparr>, b1)
         | None \<Rightarrow>
             (let (pg2, b2) = reload_after res (pg1, b1)
              in (pg2\<lparr>busyId := None, msg := NoNotice\<rparr>, b2)))"

text \<open>
  \<^verbatim>\<open>
  const extendTwoWeeks = async (art: Artwork) => {
    setBusyId(art.id);
    setMsg("...");
    const payload = {
      is_public: true,
      public_until: toISO(new Date(Date.now() + TWO_WEEKS_MS)),
    };
    const { error } = await supabase.from("artworks").update(payload).eq("id", art.id);
    if (error) { setMsg("... " + error.message); setBusyId(null); return; }
    if (myFamilyId) await load(myFamilyId);
    setBusyId(null);
    setMsg("");
  };
  \<close>
\<close>

definition extendTwoWeeks_payload :: "(int \<Rightarrow> string) \<Rightarrow> int \<Rightarrow> Artwork \<Rightarrow> payload" where
  "extendTwoWeeks_payload toISOString now art =
     \<lparr>p_is_public = True, p_public_until = Some (toISOString (now + TWO_WEEKS_MS))\<rparr>"

definition extendTwoWeeks ::
  "(int \<Rightarrow> string) \<Rightarrow> int \<Rightarrow> string option \<Rightarrow> string + Artwork list \<Rightarrow> Artwork
     \<Rightarrow> page \<times> backend \<Rightarrow> page \<times> backend" where
  "extendTwoWeeks toISOString now error res art pb =
     (let (pg, b) = pb;
          pg1 = pg\<lparr>busyId := Some (id' art), msg := Extending\<rparr>;
          p = extendTwoWeeks_payload toISOString now art;
          b1 = update_artworks p (id' art) error b
      in case error of
           Some e \<Rightarrow> (pg1\<lparr>msg := ExtendFailed e, busyId := None\<rparr>, b1)
         | None \<Rightarrow>
             (let (pg2, b2) = reload_after res (pg1, b1)
              in (pg2\<lparr>busyId := None, msg := NoNotice\<rparr>, b2)))"

text \<open>
  \<^verbatim>\<open>
  function getStoragePathFromPrivateImagePath(privateImagePath: string) {
    const raw = (privateImagePath ?? "").trim();
    if (!raw) return "";
    if (!raw.startsWith("http://") && !raw.startsWith("https://")) return raw;
    try {
      const u = new URL(raw);
      const p = u.pathname;
      const marker = "/artworks/";
      const idx = p.indexOf(marker);
      if (idx >= 0) return decodeURIComponent(p.slice(idx + marker.length));
      return decodeURIComponent(p.split("/").pop() || "");
    } catch {
      return raw.split("/").pop() || "";
    }
  }
  \<close>
  \<open>pathname raw\<close> is \<open>new URL(raw).pathname\<close> and \<open>decodeURIComponent s\<close> the decoded
  text; each is \<open>None\<close> when the platform function throws, which the \<open>catch\<close> handles.
\<close>

definition getStoragePathFromPrivateImagePath ::
  "(string \<Rightarrow> string option) \<Rightarrow> (string \<Rightarrow> string option) \<Rightarrow> string \<Rightarrow> string" where
  "getStoragePathFromPrivateImagePath pathname decodeURIComponent privateImagePath =
     (let raw = trim privateImagePath in
      if raw = [] then []
      else if \<not> startsWith raw ''http://'' \<and> \<not> startsWith raw ''https://'' then raw
      else
        (let caught = split_pop raw;
             marker = ''/artworks/''
         in case pathname raw of
              None \<Rightarrow> caught
            | Some p \<Rightarrow>
                (case indexOf p marker of
                   Some idx \<Rightarrow>
                     (case decodeURIComponent (drop (idx + length marker) p) of
                        None \<Rightarrow> caught | Some d \<Rightarrow> d)
                 | None \<Rightarrow>
                     (case decodeURIComponent (split_pop p) of
                        None \<Rightarrow> caught | Some d \<Rightarrow> d))))"

text \<open>
  \<^verbatim>\<open>
  const deleteArtwork = async (art: Artwork) => {
    const ok = confirm("...");
    if (!ok) return;
    setBusyId(art.id);
    setMsg("...");
    const storagePath = getStoragePathFromPrivateImagePath(art.private_image_path);
    if (storagePath) {
      const { error: stErr } = await supabase.storage.from("artworks").remove([storagePath]);
      if (stErr) setMsg("... " + stErr.message);
    } else {
      setMsg("...");
    }
    const { error: dbErr } = await supabase.from("artworks").delete().eq("id", art.id);
    if (dbErr) { setMsg("... " + dbErr.message); setBusyId(null); return; }
    setItems((prev) => prev.filter((x) => x.id !== art.id));
    setBusyId(null);
    setMsg("...");
    setTimeout(() => setMsg(""), 1200);
  };
  \<close>
  \<open>ok\<close> is the answer of the confirmation dialog, \<open>stErr\<close> and \<open>dbErr\<close> the errors of
  the two requests. The timer that clears the message later is a separate event and is
  not part of the handler's run.
\<close>

definition deleteArtwork ::
  "(string \<Rightarrow> string option) \<Rightarrow> (string \<Rightarrow> string option) \<Rightarrow> bool \<Rightarrow> string option
     \<Rightarrow> string option \<Rightarrow> Artwork \<Rightarrow> page \<times> backend \<Rightarrow> page \<times> backend" where
  "deleteArtwork pathname decodeURIComponent ok stErr dbErr art pb =
     (if \<not> ok then pb
      else
        (let (pg, b) = pb;
             pg1 = pg\<lparr>busyId := Some (id' art), msg := Deleting\<rparr>;
             storagePath =
               getStoragePathFromPrivateImagePath pathname decodeURIComponent
                 (private_image_path art);
             (pg2, b2) =
               (if storagePath \<noteq> []
                then (case stErr of
                        Some e \<Rightarrow> pg1\<lparr>msg := PhotoDeleteFailed e\<rparr>
                      | None \<Rightarrow> pg1,
                      remove_storage storagePath b)
                else (pg1\<lparr>msg := PhotoPathMissing\<rparr>, b));
             b3 = delete_artworks (id' art) dbErr b2
         in case dbErr of
              Some e \<Rightarrow> (pg2\<lparr>msg := DbDeleteFailed e, busyId := None\<rparr>, b3)
            | None \<Rightarrow>
                (pg2\<lparr>items := filter (\<lambda>x. id' x \<noteq> id' art) (items pg2),
                     busyId := None, msg := Deleted\<rparr>, b3)))"

section \<open>The public gallery: days left\<close>

text \<open>
  \<^verbatim>\<open>
  function daysLeft(iso: string | null) {
    if (!iso) return null;
    const t = new Date(iso).getTime() - Date.now();
    if (Number.isNaN(t)) return null;
    const d = Math.ceil(t / (24 * 60 * 60 * 1000));
    return d;
  }
  ...
  const left = daysLeft(a.public_until);
  const leftText = left == null ? "" : left <= 0 ? "..." : `${left}...`;
  \<close>
  \<open>getTime s\<close> and \<open>now\<close> are time values, so their difference is below 2^54 in
  magnitude. As a double it is exact up to 2^53; above that the doubles are the even
  integers, and an odd difference is rounded to the neighbour that is a multiple of 4
  (round to nearest, ties to even). \<open>ceil_div t d\<close> is \<open>Math.ceil(t / d)\<close> for a positive
  \<open>d\<close>: the double quotient of such a \<open>t\<close> by the milliseconds of a day is a whole
  number only when the exact quotient is, so its ceiling is the exact one.
\<close>

definition double_of_difference :: "int \<Rightarrow> int" where
  "double_of_difference t =
     (if \<bar>t\<bar> \<le> 2 ^ 53 then t
      else if even t then t
      else if (t + 1) mod 4 = 0 then t + 1
      else t - 1)"

definition ceil_div :: "int \<Rightarrow> int \<Rightarrow> int" where
  "ceil_div t d = - ((- t) div d)"

definition daysLeft :: "(string \<Rightarrow> int option) \<Rightarrow> int \<Rightarrow> string option \<Rightarrow> int option" where
  "daysLeft getTime now iso' =
     (case iso' of
        None \<Rightarrow> None
      | Some s \<Rightarrow>
          if s = [] then None
          else (case getTime s of
                  None \<Rightarrow> None
                | Some ts \<Rightarrow>
                    (let t = double_of_difference (ts - now);
                         d = ceil_div t (24 * 60 * 60 * 1000)
                     in Some d)))"

datatype left_label = NoLabel | EndsToday | DaysRemaining int

definition leftText :: "int option \<Rightarrow> left_label" where
  "leftText left =
     (case left of
        None \<Rightarrow> NoLabel
      | Some d \<Rightarrow> if d \<le> 0 then EndsToday else DaysRemaining d)"

section \<open>The invite page: loading by token\<close>

text \<open>
  \<^verbatim>\<open>
  type Entry = { id: string; display_name: string; content: string; created_at: string; };
  type ArtworkRowFromRPC = { id: string; kid_name: string; title: string;
    private_image_path: string; created_at: string; artwork_made_at: string | null;
    is_public?: boolean; public_until?: string | null; };
  type ArtworkView = { id: string; kid_name: string; title: string; image_url: string;
    created_at: string; artwork_made_at: string | null; };
  \<close>
\<close>

record Entry =
  entry_id :: string
  display_name :: string
  content :: string
  entry_created_at :: string

record ArtworkRowFromRPC =
  row_id :: string
  row_kid_name :: string
  row_title :: string
  row_private_image_path :: string
  row_created_at :: string
  row_artwork_made_at :: "string option"

record ArtworkView =
  view_id :: string
  view_kid_name :: string
  view_title :: string
  image_url :: string
  view_created_at :: string
  view_artwork_made_at :: "string option"

text \<open>
  \<^verbatim>\<open>
  function toImageUrlFromRow(a: ArtworkRowFromRPC) {
    const v = (a.private_image_path ?? "").trim();
    if (!v) return "";
    if (v.startsWith("http://") || v.startsWith("https://")) return v;
    const { data } = supabase.storage.from("artworks").getPublicUrl(v);
    return data.publicUrl;
  }
  \<close>
\<close>

definition toImageUrlFromRow :: "(string \<Rightarrow> string) \<Rightarrow> ArtworkRowFromRPC \<Rightarrow> string" where
  "toImageUrlFromRow getPublicUrl a =
     (let v = trim (row_private_image_path a) in
      if v = [] then []
      else if startsWith v ''http://'' \<or> startsWith v ''https://'' then v
      else getPublicUrl v)"

datatype rpc =
    Get_artworks_by_token string
  | Get_guestbook_entries_by_token string

datatype invite_status =
    StatusLoading
  | StatusInvalidLink
  | StatusLoadFailed
  | StatusNoArtworks
  | StatusNone

datatype debug_line =
    TokenInvalid string
  | RpcFailed string string

record invite =
  artworks :: "ArtworkView list"
  entries :: "Entry list"
  status :: invite_status
  debug :: "debug_line list"
  loading :: bool

text \<open>
  \<^verbatim>\<open>
  const loadArtworks = async (): Promise<{ ok: boolean; count: number }> => {
    const { data, error } = await supabase.rpc("get_artworks_by_token", { p_token: token });
    if (error) {
      setArtworks([]);
      setDebug((prev) => (prev ? prev : "") + `\n[get_artworks_by_token] ${error.message}`);
      return { ok: false, count: 0 };
    }
    const rows = (data ?? []) as ArtworkRowFromRPC[];
    const mapped: ArtworkView[] = rows.map((a) => ({ id: a.id, kid_name: a.kid_name,
      title: a.title, image_url: toImageUrlFromRow(a), created_at: a.created_at,
      artwork_made_at: a.artwork_made_at ?? null }));
    setArtworks(mapped);
    return { ok: true, count: mapped.length };
  };
  \<close>
  The two loaders are split at their \<open>await\<close>: the request each one sends, and what it
  does with the response.
\<close>

definition loadArtworks_request :: "string \<Rightarrow> rpc" where
  "loadArtworks_request token = Get_artworks_by_token token"

definition loadArtworks_response ::
  "(string \<Rightarrow> string) \<Rightarrow> string + ArtworkRowFromRPC list \<Rightarrow> invite \<Rightarrow> invite \<times> bool \<times> nat" where
  "loadArtworks_response getPublicUrl resp st =
     (case resp of
        Inl e \<Rightarrow>
          (st\<lparr>artworks := [], debug := debug st @ [RpcFailed ''get_artworks_by_token'' e]\<rparr>,
           False, 0)
      | Inr data \<Rightarrow>
          (let mapped =
                 map (\<lambda>a. \<lparr>view_id = row_id a, view_kid_name = row_kid_name a,
                            view_title = row_title a,
                            image_url = toImageUrlFromRow getPublicUrl a,
                            view_created_at = row_created_at a,
                            view_artwork_made_at = row_artwork_made_at a\<rparr>) data
           in (st\<lparr>artworks := mapped\<rparr>, True, length mapped)))"

text \<open>
  \<^verbatim>\<open>
  const loadGuestbook = async (): Promise<{ ok: boolean; count: number }> => {
    const { data, error } = await supabase.rpc("get_guestbook_entries_by_token", { p_token: token });
    if (error) {
      setEntries([]);
      setDebug((prev) => (prev ? prev : "") + `\n[get_guestbook_entries_by_token] ${error.message}`);
      return { ok: false, count: 0 };
    }
    const list = (data ?? []) as Entry[];
    setEntries(list);
    return { ok: true, count: list.length };
  };
  \<close>
\<close>

definition loadGuestbook_request :: "string \<Rightarrow> rpc" where
  "loadGuestbook_request token = Get_guestbook_entries_by_token token"

definition loadGuestbook_response :: "string + Entry list \<Rightarrow> invite \<Rightarrow> invite \<times> bool \<times> nat" where
  "loadGuestbook_response resp st =
     (case resp of
        Inl e \<Rightarrow>
          (st\<lparr>entries := [],
              debug := debug st @ [RpcFailed ''get_guestbook_entries_by_token'' e]\<rparr>,
           False, 0)
      | Inr data \<Rightarrow> (st\<lparr>entries := data\<rparr>, True, length data))"

text \<open>
  \<^verbatim>\<open>
  const loadAll = async () => {
    if (!token || token.trim().length < 6) {
      setLoading(false);
      setStatus("...");
      setDebug((prev) => (prev ? prev : "") + `\n[token] invalid or missing: "${token}"`);
      setArtworks([]);
      setEntries([]);
      return;
    }
    setLoading(true);
    setStatus("...");
    setDebug("");
    const [guestRes, artRes] = await Promise.all([loadGuestbook(), loadArtworks()]);
    if (!guestRes.ok || !artRes.ok) {
      setLoading(false);
      setStatus("...");
      return;
    }
    if (artRes.count === 0) setStatus("...");
    else setStatus("");
    setLoading(false);
  };
  \<close>
  \<open>loadAll\<close> returns the new state of the page and the remote procedure calls it has
  sent, oldest first. \<open>Promise.all\<close> starts the guestbook loader, then the artwork
  loader; the two responses come back in either order, and \<open>artFirst\<close> says that the
  artworks' response was handled first.
\<close>

definition loadAll ::
  "(string \<Rightarrow> string) \<Rightarrow> string \<Rightarrow> string + Entry list \<Rightarrow> string + ArtworkRowFromRPC list
     \<Rightarrow> bool \<Rightarrow> invite \<Rightarrow> invite \<times> rpc list" where
  "loadAll getPublicUrl token guestResp artResp artFirst st =
     (if token = [] \<or> length (trim token) < 6
      then (st\<lparr>loading := False, status := StatusInvalidLink,
               debug := debug st @ [TokenInvalid token],
               artworks := [], entries := []\<rparr>, [])
      else
        (let st1 = st\<lparr>loading := True, status := StatusLoading, debug := []\<rparr>;
             sent = [loadGuestbook_request token, loadArtworks_request token];
             (st2, guestOk, artOk, artCount) =
               (if artFirst
                then (let (sa, aOk, aCount) = loadArtworks_response getPublicUrl artResp st1;
                          (sg, gOk, gCount) = loadGuestbook_response guestResp sa
                      in (sg, gOk, aOk, aCount))
                else (let (sg, gOk, gCount) = loadGuestbook_response guestResp st1;
                          (sa, aOk, aCount) = loadArtworks_response getPublicUrl artResp sg
                      in (sa, gOk, aOk, aCount)))
         in if \<not> guestOk \<or> \<not> artOk
            then (st2\<lparr>loading := False, status := StatusLoadFailed\<rparr>, sent)
            else (st2\<lparr>status := (if artCount = 0 then StatusNoArtworks else StatusNone),
                      loading := False\<rparr>, sent)))"

section \<open>Dates: the time-value operations behind \<open>Date\<close>\<close>

text \<open>
  The upload page builds a \<open>Date\<close> from local calendar fields and changes it with
  \<open>getDate\<close>, \<open>setDate\<close> and \<open>setHours\<close>. These are the operations of the language
  standard on time values (Day, TimeWithinDay, DaysInYear, DayFromYear, YearFromTime,
  MonthFromTime, DateFromTime, MakeTime, MakeDay, MakeDate, TimeClip, LocalTZA, LocalTime,
  UTC), written here on integers. The local time zone is the platform's: \<open>tza t True\<close>
  is the offset in milliseconds of local time from UTC at the instant \<open>t\<close>, and
  \<open>tza t False\<close> the offset with which the platform reads the local time value \<open>t\<close>
  (the standard's \<open>LocalTZA(t, isUTC)\<close>). In a zone with transitions the offset depends on
  the time: a local time that a transition skips has no instant of its own, and one that
  a transition repeats has two.
\<close>

definition msPerDay :: int where
  "msPerDay = 86400000"

definition msPerHour :: int where
  "msPerHour = 3600000"

definition msPerMinute :: int where
  "msPerMinute = 60000"

definition msPerSecond :: int where
  "msPerSecond = 1000"

definition Day :: "int \<Rightarrow> int" where
  "Day t = t div msPerDay"

definition TimeWithinDay :: "int \<Rightarrow> int" where
  "TimeWithinDay t = t mod msPerDay"

definition DaysInYear :: "int \<Rightarrow> int" where
  "DaysInYear y =
     (if y mod 4 \<noteq> 0 then 365
      else if y mod 100 \<noteq> 0 then 366
      else if y mod 400 \<noteq> 0 then 365
      else 366)"

definition DayFromYear :: "int \<Rightarrow> int" where
  "DayFromYear y =
     365 * (y - 1970) + (y - 1969) div 4 - (y - 1901) div 100 + (y - 1601) div 400"

text \<open>
  \<open>YearFromTime t\<close> is the largest year \<open>y\<close> with \<open>DayFromYear y \<le> Day t\<close>. It is found by
  counting up from a year that is not too late: no year has more than 366 days, and none
  fewer than 365. The count ends because each year starts after the one before; the
  lemmas before \<open>year_from\<close> say so.
\<close>

lemma div_succ:
  fixes a n :: int
  assumes "0 < n"
  shows "(a + 1) div n = a div n + (if (a + 1) mod n = 0 then 1 else 0)"
proof (cases "(a + 1) mod n = 0")
  case True
  then obtain k where k: "a + 1 = n * k"
    by (auto simp: mod_eq_0_iff_dvd)
  have "a = n * (k - 1) + (n - 1)"
    using k by (simp add: algebra_simps)
  then have "a div n = k - 1"
    using assms by (intro int_div_pos_eq [where r = "n - 1"]) simp_all
  moreover have "(a + 1) div n = k"
    using k assms by simp
  ultimately show ?thesis using True by simp
next
  case False
  let ?r = "a mod n"
  have r: "0 \<le> ?r" "?r < n" using assms by simp_all
  have "?r + 1 \<noteq> n"
  proof
    assume eq: "?r + 1 = n"
    have "(a + 1) mod n = (?r + 1) mod n" by (simp add: mod_add_left_eq)
    also have "\<dots> = n mod n" by (simp only: eq)
    also have "\<dots> = 0" by simp
    finally show False using False by simp
  qed
  with r have r1: "?r + 1 < n" by simp
  have "a + 1 = n * (a div n) + (?r + 1)" by simp
  then have "(a + 1) div n = a div n"
    using r r1 by (intro int_div_pos_eq [where r = "?r + 1"]) simp_all
  with False show ?thesis by simp
qed

lemma mod_shift:
  fixes y c n :: int
  assumes "c mod n = 0"
  shows "((y - c) mod n = 0) = (y mod n = 0)"
proof -
  have "(y - c) mod n = y mod n"
    using assms by (metis diff_zero mod_diff_right_eq)
  then show ?thesis by simp
qed

lemma DayFromYear_step: "DayFromYear (y + 1) = DayFromYear y + DaysInYear y"
proof -
  have a: "(y + 1 - 1969) div 4 = (y - 1969) div 4 + (if y mod 4 = 0 then 1 else 0)"
    using div_succ [of 4 "y - 1969"] mod_shift [of 1968 4 y] by (simp add: algebra_simps)
  have b: "(y + 1 - 1901) div 100 = (y - 1901) div 100 + (if y mod 100 = 0 then 1 else 0)"
    using div_succ [of 100 "y - 1901"] mod_shift [of 1900 100 y] by (simp add: algebra_simps)
  have c: "(y + 1 - 1601) div 400 = (y - 1601) div 400 + (if y mod 400 = 0 then 1 else 0)"
    using div_succ [of 400 "y - 1601"] mod_shift [of 1600 400 y] by (simp add: algebra_simps)
  have "y mod 100 mod 4 = y mod 4"
    by (rule mod_mod_cancel) simp
  then have d: "y mod 100 = 0 \<Longrightarrow> y mod 4 = 0"
    by simp
  have "y mod 400 mod 100 = y mod 100"
    by (rule mod_mod_cancel) simp
  then have e: "y mod 400 = 0 \<Longrightarrow> y mod 100 = 0"
    by simp
  show ?thesis
  proof (cases "y mod 4 = 0")
    case False
    with d e have "y mod 100 \<noteq> 0" and "y mod 400 \<noteq> 0" by auto
    with False show ?thesis
      unfolding DayFromYear_def DaysInYear_def a b c by simp
  next
    case y4: True
    show ?thesis
    proof (cases "y mod 100 = 0")
      case False
      with e have "y mod 400 \<noteq> 0" by auto
      with y4 False show ?thesis
        unfolding DayFromYear_def DaysInYear_def a b c by simp
    next
      case True
      with y4 show ?thesis
        unfolding DayFromYear_def DaysInYear_def a b c by simp
    qed
  qed
qed

lemma DayFromYear_1970: "DayFromYear 1970 = 0"
  by (simp add: DayFromYear_def)

lemma DaysInYear_bounds: "365 \<le> DaysInYear y" "DaysInYear y \<le> 366"
  by (simp_all add: DaysInYear_def)

function year_from :: "int \<Rightarrow> int \<Rightarrow> int" where
  "year_from y d = (if DayFromYear (y + 1) \<le> d then year_from (y + 1) d else y)"
  by pat_completeness auto
termination
proof (relation "measure (\<lambda>(y, d). nat (d - DayFromYear y))")
  show "wf (measure (\<lambda>(y, d). nat (d - DayFromYear y)))" by simp
next
  fix y d :: int
  assume "DayFromYear (y + 1) \<le> d"
  then show "((y + 1, d), (y, d)) \<in> measure (\<lambda>(y, d). nat (d - DayFromYear y))"
    using DayFromYear_step [of y] DaysInYear_bounds [of y] by simp
qed

definition YearFromTime :: "int \<Rightarrow> int" where
  "YearFromTime t =
     (let d = Day t;
          y0 = 1970 + (if 0 \<le> d then d div 366 else d div 365)
      in year_from y0 d)"

definition InLeapYear :: "int \<Rightarrow> int" where
  "InLeapYear t = (if DaysInYear (YearFromTime t) = 366 then 1 else 0)"

definition DayWithinYear :: "int \<Rightarrow> int" where
  "DayWithinYear t = Day t - DayFromYear (YearFromTime t)"

definition MonthFromTime :: "int \<Rightarrow> int" where
  "MonthFromTime t =
     (let d = DayWithinYear t; L = InLeapYear t in
      if d < 31 then 0
      else if d < 59 + L then 1
      else if d < 90 + L then 2
      else if d < 120 + L then 3
      else if d < 151 + L then 4
      else if d < 181 + L then 5
      else if d < 212 + L then 6
      else if d < 243 + L then 7
      else if d < 273 + L then 8
      else if d < 304 + L then 9
      else if d < 334 + L then 10
      else 11)"

definition DateFromTime :: "int \<Rightarrow> int" where
  "DateFromTime t =
     (let d = DayWithinYear t; L = InLeapYear t; m = MonthFromTime t in
      if m = 0 then d + 1
      else if m = 1 then d - 30
      else if m = 2 then d - 58 - L
      else if m = 3 then d - 89 - L
      else if m = 4 then d - 119 - L
      else if m = 5 then d - 150 - L
      else if m = 6 then d - 180 - L
      else if m = 7 then d - 211 - L
      else if m = 8 then d - 242 - L
      else if m = 9 then d - 272 - L
      else if m = 10 then d - 303 - L
      else d - 333 - L)"

definition HourFromTime :: "int \<Rightarrow> int" where
  "HourFromTime t = (t div msPerHour) mod 24"

definition MinFromTime :: "int \<Rightarrow> int" where
  "MinFromTime t = (t div msPerMinute) mod 60"

definition SecFromTime :: "int \<Rightarrow> int" where
  "SecFromTime t = (t div msPerSecond) mod 60"

definition msFromTime :: "int \<Rightarrow> int" where
  "msFromTime t = t mod msPerSecond"

definition MakeTime :: "int \<Rightarrow> int \<Rightarrow> int \<Rightarrow> int \<Rightarrow> int" where
  "MakeTime hour minute sec ms =
     hour * msPerHour + minute * msPerMinute + sec * msPerSecond + ms"

text \<open>
  \<open>MakeDay year month date\<close>: the day number of the first of month \<open>month mod 12\<close> in the
  year \<open>year + month div 12\<close>, plus \<open>date - 1\<close>. A month or a date out of range carries
  over; nothing is rejected.
\<close>

definition month_start :: "int \<Rightarrow> int \<Rightarrow> int" where
  "month_start mn L =
     (if mn = 0 then 0
      else if mn = 1 then 31
      else if mn = 2 then 59 + L
      else if mn = 3 then 90 + L
      else if mn = 4 then 120 + L
      else if mn = 5 then 151 + L
      else if mn = 6 then 181 + L
      else if mn = 7 then 212 + L
      else if mn = 8 then 243 + L
      else if mn = 9 then 273 + L
      else if mn = 10 then 304 + L
      else 334 + L)"

definition MakeDay :: "int \<Rightarrow> int \<Rightarrow> int \<Rightarrow> int" where
  "MakeDay year month date =
     (let ym = year + month div 12;
          mn = month mod 12;
          L = (if DaysInYear ym = 366 then 1 else 0)
      in DayFromYear ym + month_start mn L + date - 1)"

definition MakeDate :: "int \<Rightarrow> int \<Rightarrow> int" where
  "MakeDate day time = day * msPerDay + time"

definition TimeClip :: "int \<Rightarrow> int option" where
  "TimeClip time = (if \<bar>time\<bar> > 8640000000000000 then None else Some time)"

definition LocalTime :: "(int \<Rightarrow> bool \<Rightarrow> int) \<Rightarrow> int \<Rightarrow> int" where
  "LocalTime tza t = t + tza t True"

definition UTC :: "(int \<Rightarrow> bool \<Rightarrow> int) \<Rightarrow> int \<Rightarrow> int" where
  "UTC tza t = t - tza t False"

text \<open>
  A \<open>Date\<close> object is its time value, \<open>None\<close> for an invalid date.
  \<open>new_Date\<close> is the constructor with seven numbers: a year from 0 to 99 means 1900 plus
  that year.
\<close>

definition new_Date ::
  "(int \<Rightarrow> bool \<Rightarrow> int) \<Rightarrow> int \<Rightarrow> int \<Rightarrow> int \<Rightarrow> int \<Rightarrow> int \<Rightarrow> int \<Rightarrow> int \<Rightarrow> int option" where
  "new_Date tza year month date hours minutes seconds ms =
     (let yr = (if 0 \<le> year \<and> year \<le> 99 then 1900 + year else year);
          finalDate = MakeDate (MakeDay yr month date) (MakeTime hours minutes seconds ms)
      in TimeClip (UTC tza finalDate))"

definition getDate :: "(int \<Rightarrow> bool \<Rightarrow> int) \<Rightarrow> int option \<Rightarrow> int option" where
  "getDate tza this = map_option (\<lambda>t. DateFromTime (LocalTime tza t)) this"

definition setDate ::
  "(int \<Rightarrow> bool \<Rightarrow> int) \<Rightarrow> int option \<Rightarrow> int option \<Rightarrow> int option" where
  "setDate tza this date =
     (case this of
        None \<Rightarrow> None
      | Some tv \<Rightarrow>
          (case date of
             None \<Rightarrow> None
           | Some dt \<Rightarrow>
               (let t = LocalTime tza tv;
                    newDate = MakeDate (MakeDay (YearFromTime t) (MonthFromTime t) dt)
                                (TimeWithinDay t)
                in TimeClip (UTC tza newDate))))"

definition setHours ::
  "(int \<Rightarrow> bool \<Rightarrow> int) \<Rightarrow> int option \<Rightarrow> int \<Rightarrow> int \<Rightarrow> int \<Rightarrow> int \<Rightarrow> int option" where
  "setHours tza this hour minute sec ms =
     (case this of
        None \<Rightarrow> None
      | Some tv \<Rightarrow>
          (let t = LocalTime tza tv;
               date = MakeDate (Day t) (MakeTime hour minute sec ms)
           in TimeClip (UTC tza date)))"

section \<open>The upload page: the made-at validator\<close>

text \<open>
  The pattern \<^verbatim>\<open>/^(\d{4})-(\d{2})-(\d{2})\s+(\d{2}):(\d{2})$/\<close> is matched from left
  to right. \<open>\d\<close> is a decimal digit. Each piece has a fixed length but \<open>\s+\<close>, which
  takes one space or more and, since a digit must follow, all the spaces there are.
  \<open>exec_pattern\<close> gives the five groups of a match.
\<close>

definition is_digit :: "char \<Rightarrow> bool" where
  "is_digit c = (48 \<le> (of_char c :: nat) \<and> (of_char c :: nat) \<le> 57)"

definition digits :: "nat \<Rightarrow> string \<Rightarrow> (string \<times> string) option" where
  "digits n s =
     (if n \<le> length s \<and> list_all is_digit (take n s) then Some (take n s, drop n s) else None)"

definition lit :: "char \<Rightarrow> string \<Rightarrow> string option" where
  "lit c s = (case s of [] \<Rightarrow> None | x # xs \<Rightarrow> if x = c then Some xs else None)"

definition spaces1 :: "string \<Rightarrow> string option" where
  "spaces1 s =
     (case s of [] \<Rightarrow> None | x # xs \<Rightarrow> if is_space x then Some (dropWhile is_space xs) else None)"

definition exec_pattern :: "string \<Rightarrow> (string \<times> string \<times> string \<times> string \<times> string) option" where
  "exec_pattern t =
     do {
       (m1, r1) \<leftarrow> digits 4 t;
       r2 \<leftarrow> lit CHR ''-'' r1;
       (m2, r3) \<leftarrow> digits 2 r2;
       r4 \<leftarrow> lit CHR ''-'' r3;
       (m3, r5) \<leftarrow> digits 2 r4;
       r6 \<leftarrow> spaces1 r5;
       (m4, r7) \<leftarrow> digits 2 r6;
       r8 \<leftarrow> lit CHR '':'' r7;
       (m5, r9) \<leftarrow> digits 2 r8;
       if r9 = [] then Some (m1, m2, m3, m4, m5) else None
     }"

text \<open>\<open>Number\<close> of a string of decimal digits.\<close>

definition Number :: "string \<Rightarrow> int" where
  "Number ds = foldl (\<lambda>n c. 10 * n + (int (of_char c) - 48)) 0 ds"

text \<open>
  The reasons for which the validator rejects an input, in the order of its checks, and
  \<open>RangeError\<close>: what \<open>toISOString\<close> throws on an invalid date.
\<close>

datatype made_at_error =
    PatternMismatch
  | MonthOutOfRange
  | DayOutOfRange
  | MinutesNotZero
  | HoursOutOfRange
  | InvalidDate
  | RangeError


definition Date_toISOString :: "(int \<Rightarrow> string) \<Rightarrow> int option \<Rightarrow> made_at_error + string" where
  "Date_toISOString toISOString this =
     (case this of None \<Rightarrow> Inl RangeError | Some tv \<Rightarrow> Inr (toISOString tv))"

text \<open>
  \<^verbatim>\<open>
  function parseArtworkMadeAt(input: string): { iso: string | null; error: string | null } {
    const t = input.trim();
    const m = /^(\d{4})-(\d{2})-(\d{2})\s+(\d{2}):(\d{2})$/.exec(t);
    if (!m) return { iso: null, error: "..." };
    const yyyy = Number(m[1]);
    const mm = Number(m[2]);
    const dd = Number(m[3]);
    let hh = Number(m[4]);
    const mi = Number(m[5]);
    if (mm < 1 || mm > 12) return { iso: null, error: "..." };
    if (dd < 1 || dd > 31) return { iso: null, error: "..." };
    if (mi !== 0) return { iso: null, error: "..." };
    if (!(hh === 24 || (hh >= 0 && hh <= 23))) return { iso: null, error: "..." };
    const base = new Date(yyyy, mm - 1, dd, 0, 0, 0, 0);
    if (Number.isNaN(base.getTime())) return { iso: null, error: "..." };
    if (hh === 24) {
      base.setDate(base.getDate() + 1);
      hh = 0;
    }
    base.setHours(hh, 0, 0, 0);
    return { iso: base.toISOString(), error: null };
  }
  \<close>
  The result is \<open>Inl\<close> of the reason (\<open>iso\<close> is null; \<open>error\<close> is \<open>error_text\<close> of
  the reason) or \<open>Inr\<close> of the text (\<open>error\<close> is null).
\<close>

definition parseArtworkMadeAt ::
  "(int \<Rightarrow> bool \<Rightarrow> int) \<Rightarrow> (int \<Rightarrow> string) \<Rightarrow> string \<Rightarrow> made_at_error + string" where
  "parseArtworkMadeAt tza toISOString input =
     (let t = trim input in
      case exec_pattern t of
        None \<Rightarrow> Inl PatternMismatch
      | Some (m1, m2, m3, m4, m5) \<Rightarrow>
          (let yyyy = Number m1;
               mm = Number m2;
               dd = Number m3;
               hh = Number m4;
               mi = Number m5
           in if mm < 1 \<or> mm > 12 then Inl MonthOutOfRange
              else if dd < 1 \<or> dd > 31 then Inl DayOutOfRange
              else if mi \<noteq> 0 then Inl MinutesNotZero
              else if \<not> (hh = 24 \<or> (hh \<ge> 0 \<and> hh \<le> 23)) then Inl HoursOutOfRange
              else
                (let base = new_Date tza yyyy (mm - 1) dd 0 0 0 0 in
                 if base = None then Inl InvalidDate
                 else
                   (let (base1, hh1) =
                          (if hh = 24
                           then (setDate tza base (map_option (\<lambda>d. d + 1) (getDate tza base)), 0)
                           else (base, hh));
                        base2 = setHours tza base1 hh1 0 0 0
                    in Date_toISOString toISOString base2))))"

text \<open>
  The calendar fields of a local time value: year, month (1 to 12), day, hour, minute,
  second, millisecond. \<open>local_fields\<close> are those of an instant in the local zone, as
  \<open>getFullYear\<close>, \<open>getMonth() + 1\<close>, \<open>getDate\<close>, \<open>getHours\<close>, \<open>getMinutes\<close>,
  \<open>getSeconds\<close> and \<open>getMilliseconds\<close> read them.
\<close>

definition calendar_fields :: "int \<Rightarrow> int \<times> int \<times> int \<times> int \<times> int \<times> int \<times> int" where
  "calendar_fields t =
     (YearFromTime t, MonthFromTime t + 1, DateFromTime t,
      HourFromTime t, MinFromTime t, SecFromTime t, msFromTime t)"

definition local_fields ::
  "(int \<Rightarrow> bool \<Rightarrow> int) \<Rightarrow> int \<Rightarrow> int \<times> int \<times> int \<times> int \<times> int \<times> int \<times> int" where
  "local_fields tza tv = calendar_fields (LocalTime tza tv)"

text \<open>The number of days of a month (0 to 11) of a year.\<close>

definition DaysInMonth :: "int \<Rightarrow> int \<Rightarrow> int" where
  "DaysInMonth y m =
     (if m = 1 then (if DaysInYear y = 366 then 29 else 28)
      else if m = 3 \<or> m = 5 \<or> m = 8 \<or> m = 10 then 30
      else 31)"

section \<open>The texts the pattern matches\<close>

text \<open>
  The pattern of the validator, written out on the untrimmed input: white space, four
  digits, a hyphen, two digits, a hyphen, two digits, at least one white space, two
  digits, a colon, two digits, white space. \<open>made_at_text input y mo d h mi\<close> says that
  \<open>input\<close> is such a text with these five groups of digits. The validator is compared
  with it below.
\<close>

definition made_at_text ::
  "string \<Rightarrow> string \<Rightarrow> string \<Rightarrow> string \<Rightarrow> string \<Rightarrow> string \<Rightarrow> bool" where
  "made_at_text input y mo d h mi =
     (\<exists>pre ws post.
        input = pre @ y @ ''-'' @ mo @ ''-'' @ d @ ws @ h @ '':'' @ mi @ post
        \<and> list_all is_space pre \<and> list_all is_space post
        \<and> ws \<noteq> [] \<and> list_all is_space ws
        \<and> length y = 4 \<and> list_all is_digit y
        \<and> length mo = 2 \<and> list_all is_digit mo
        \<and> length d = 2 \<and> list_all is_digit d
        \<and> length h = 2 \<and> list_all is_digit h
        \<and> length mi = 2 \<and> list_all is_digit mi)"

section \<open>Sample data\<close>

text \<open>
  One artwork, a parser and a formatter that know one instant (2024-01-15T00:00 UTC), a
  page and a backend holding that artwork. The instances below are stated on them.
\<close>

definition sample_art :: Artwork where
  "sample_art =
     \<lparr>id' = ''a1'', kid_name = ''Mina'', title = ''Sun'',
      private_image_path = ''https://x.example/storage/v1/object/public/artworks/17-ab.jpg'',
      created_at = ''2024-01-01T00:00:00.000Z'', is_public = True,
      public_until = Some ''2024-01-15T00:00:00.000Z'', artwork_made_at = None\<rparr>"

definition sample_getTime :: "string \<Rightarrow> int option" where
  "sample_getTime s = (if s = ''2024-01-15T00:00:00.000Z'' then Some 1705276800000 else None)"

definition sample_toISOString :: "int \<Rightarrow> string" where
  "sample_toISOString t =
     (if t = 1705276800000 then ''2024-01-15T00:00:00.000Z'' else ''another instant'')"

definition sample_page :: page where
  "sample_page = \<lparr>items = [sample_art], msg = NoNotice, busyId = None, myFamilyId = None\<rparr>"

definition sample_backend :: backend where
  "sample_backend = \<lparr>rows = [sample_art], requests = []\<rparr>"

text \<open>
  The state of an invite page that shows one artwork and one guestbook entry, and a
  stand-in for \<open>new URL(raw).pathname\<close> that knows one origin.
\<close>

definition sample_invite :: invite where
  "sample_invite =
     \<lparr>artworks = [\<lparr>view_id = ''a1'', view_kid_name = ''Mina'', view_title = ''Sun'',
                    image_url = ''https://x.example/17-ab.jpg'',
                    view_created_at = ''2024-01-01T00:00:00.000Z'',
                    view_artwork_made_at = None\<rparr>],
      entries = [\<lparr>entry_id = ''e1'', display_name = ''Grandma'', content = ''Lovely'',
                   entry_created_at = ''2024-01-02T00:00:00.000Z''\<rparr>],
      status = StatusLoading, debug = [], loading = True\<rparr>"

definition sample_pathname :: "string \<Rightarrow> string option" where
  "sample_pathname url = (if startsWith url ''https://x.example'' then Some (drop 17 url) else None)"

text \<open>
  A zone without transitions, at a fixed offset from UTC; a zone with one transition, at
  the instant 2024-03-31T01:00Z, where its offset goes from 0 to one hour: the local times
  from 01:00 to 02:00 of that day are skipped, and are read with the offset before the
  transition; and a formatter that knows the ISO text of a few instants.
\<close>

definition fixed_zone :: "int \<Rightarrow> int \<Rightarrow> bool \<Rightarrow> int" where
  "fixed_zone offset t isUTC = offset"

definition summer_zone :: "int \<Rightarrow> bool \<Rightarrow> int" where
  "summer_zone t isUTC =
     (if t < (if isUTC then 1711846800000 else 1711850400000) then 0 else 3600000)"

definition known_ISO :: "int \<Rightarrow> string" where
  "known_ISO t =
     (case map_of
        [(- 2203855200000, ''1900-03-01T10:00:00.000Z''),
         (- 2203768800000, ''1900-03-02T10:00:00.000Z''),
         (- 1450396800000, ''1924-01-16T00:00:00.000Z''),
         (946684800000, ''2000-01-01T00:00:00.000Z''),
         (1705330800000, ''2024-01-15T15:00:00.000Z''),
         (1705363200000, ''2024-01-16T00:00:00.000Z''),
         (1709341200000, ''2024-03-02T01:00:00.000Z''),
         (1709373600000, ''2024-03-02T10:00:00.000Z''),
         (1711846800000, ''2024-03-31T01:00:00.000Z'')] t of
        Some text \<Rightarrow> text
      | None \<Rightarrow> ''another instant'')"

section \<open>The invariant of the visibility fields\<close>

text \<open>An artwork that is not public has no \<open>public_until\<close>.\<close>

definition visibility_invariant :: "Artwork \<Rightarrow> bool" where
  "visibility_invariant r = (\<not> is_public r \<longrightarrow> public_until r = None)"

section \<open>The storage path of an artwork\<close>

text \<open>The storage path \<open>deleteArtwork\<close> computes for an artwork.\<close>

definition storagePath_of ::
  "(string \<Rightarrow> string option) \<Rightarrow> (string \<Rightarrow> string option) \<Rightarrow> Artwork \<Rightarrow> string" where
  "storagePath_of pathname decode art =
     getStoragePathFromPrivateImagePath pathname decode (private_image_path art)"

section \<open>The local time of an accepted made-at text\<close>

text \<open>
  The closed form that the validator's result is compared with: the year as the \<open>Date\<close>
  constructor reads it, and the local time value for the numbers of an accepted input,
  which for the hour 24 is the start of the day after the given one.
\<close>

definition constructor_year :: "int \<Rightarrow> int" where
  "constructor_year yyyy = (if 0 \<le> yyyy \<and> yyyy \<le> 99 then 1900 + yyyy else yyyy)"

definition made_at_local :: "int \<Rightarrow> int \<Rightarrow> int \<Rightarrow> int \<Rightarrow> int" where
  "made_at_local yyyy mm dd hh =
     (if hh = 24
      then MakeDate (MakeDay (constructor_year yyyy) (mm - 1) dd + 1) 0
      else MakeDate (MakeDay (constructor_year yyyy) (mm - 1) dd) (hh * msPerHour))"

chapter \<open>Properties\<close>

section \<open>Invite tokens\<close>

lemma length_alphabet: "length alphabet = 57"
  by (simp add: alphabet_def)

lemma distinct_alphabet: "distinct alphabet"
  by (simp add: alphabet_def)

lemma token_index_less: "token_index b < length alphabet"
  by (simp add: token_index_def length_alphabet)

lemma char_at_alphabet: "char_at alphabet (token_index b) = [alphabet ! token_index b]"
  by (simp add: char_at_def token_index_less)

lemma token_loop_map:
  "token_loop bs out = out @ map (\<lambda>b. alphabet ! token_index b) bs"
  by (induction bs arbitrary: out) (simp_all add: char_at_alphabet)

lemma makeToken_map:
  "makeToken rnd len = map (\<lambda>i. alphabet ! token_index (rnd i)) [0..<len]"
  by (simp add: makeToken_def getRandomValues_def token_loop_map comp_def)

lemma makeToken_one: "makeToken (\<lambda>i. b) (Suc 0) = [alphabet ! token_index b]"
  by (simp add: makeToken_map)

lemma token_index_of_nat:
  assumes "n < 256"
  shows "token_index (of_nat n :: 8 word) = n mod 57"
proof -
  have "unat (of_nat n :: 8 word) = n"
    using assms by (simp add: unat_of_nat)
  then show ?thesis
    by (simp add: token_index_def length_alphabet)
qed

lemma residue_class:
  assumes "k < 57"
  shows "{n::nat. n < 256 \<and> n mod 57 = k} = (\<lambda>j. k + 57 * j) ` {..<(if k < 28 then 5 else 4)}"
proof (intro set_eqI iffI)
  fix n assume "n \<in> {n::nat. n < 256 \<and> n mod 57 = k}"
  then have n: "n < 256" "n mod 57 = k" by simp_all
  have q: "n = k + 57 * (n div 57)"
    using n(2) mult_div_mod_eq [of 57 n] by simp
  have "n div 57 < (if k < 28 then 5 else 4)"
  proof (cases "k < 28")
    case True
    have "n div 57 < 5" using n(1) by simp
    with True show ?thesis by simp
  next
    case False
    have "57 * (n div 57) < 228" using q n(1) False by linarith
    with False show ?thesis by simp
  qed
  with q show "n \<in> (\<lambda>j. k + 57 * j) ` {..<(if k < 28 then 5 else 4)}"
    by blast
next
  fix n assume "n \<in> (\<lambda>j. k + 57 * j) ` {..<(if k < 28 then 5 else 4)}"
  then obtain j where j: "n = k + 57 * j" "j < (if k < 28 then 5 else 4)"
    by blast
  have "n < 256" using j assms by (simp split: if_splits)
  moreover have "n mod 57 = k" using j(1) assms by simp
  ultimately show "n \<in> {n::nat. n < 256 \<and> n mod 57 = k}" by simp
qed

lemma residue_count:
  assumes "k < 57"
  shows "card {n::nat. n < 256 \<and> n mod 57 = k} = (if k < 28 then 5 else 4)"
proof -
  have "inj_on (\<lambda>j::nat. k + 57 * j) {..<(if k < 28 then 5 else 4)}"
    by (simp add: inj_on_def)
  then show ?thesis
    by (simp add: residue_class [OF assms] card_image)
qed

lemma symbol_count_nth:
  assumes "k < 57"
  shows "symbol_count (alphabet ! k) = (if k < 28 then 5 else 4)"
proof -
  have eq: "(alphabet ! token_index b = alphabet ! k) = (token_index b = k)" for b
    using distinct_alphabet token_index_less [of b] assms
    by (simp add: nth_eq_iff_index_eq length_alphabet)
  have "symbol_count (alphabet ! k)
        = length (filter (\<lambda>n. token_index (of_nat n :: 8 word) = k) [0..<256])"
    by (simp add: symbol_count_def all_bytes_def makeToken_one eq filter_map comp_def)
  also have "\<dots> = length (filter (\<lambda>n. n mod 57 = k) [0..<256])"
    by (rule arg_cong [where f = length], rule filter_cong) (simp_all add: token_index_of_nat)
  also have "\<dots> = card (set (filter (\<lambda>n. n mod 57 = k) [0..<256]))"
    by (rule distinct_card [symmetric]) simp
  also have "set (filter (\<lambda>n. n mod 57 = k) [0..<256]) = {n::nat. n < 256 \<and> n mod 57 = k}"
    by auto
  finally show ?thesis
    by (simp only: residue_count [OF assms])
qed

text \<open>
  C6 as amended. \<open>makeToken\<close> returns exactly \<open>len\<close> characters (28 at the invite call
  site), each from the alphabet of 57 distinct symbols: the symbol at index
  \<open>byte mod 57\<close>. Of the 256 byte values, five select each of the first 28 symbols and
  four select each of the other 29, so over uniformly random bytes the symbols are not
  equally likely.
\<close>

theorem makeToken_length_alphabet_bias:
  "length (makeToken rnd len) = len
   \<and> set (makeToken rnd len) \<subseteq> set alphabet
   \<and> (\<forall>i<len. makeToken rnd len ! i = alphabet ! (unat (rnd i) mod 57))
   \<and> length (invite_token rnd) = 28
   \<and> length alphabet = 57 \<and> distinct alphabet
   \<and> (\<forall>k<57. symbol_count (alphabet ! k) = (if k < 28 then 5 else 4))"
proof (intro conjI)
  show "length (makeToken rnd len) = len"
    by (simp add: makeToken_map)
  show "set (makeToken rnd len) \<subseteq> set alphabet"
    using token_index_less by (auto simp: makeToken_map)
  show "\<forall>i<len. makeToken rnd len ! i = alphabet ! (unat (rnd i) mod 57)"
    by (simp add: makeToken_map token_index_def length_alphabet)
  show "length (invite_token rnd) = 28"
    by (simp add: invite_token_def makeToken_map)
  show "\<forall>k<57. symbol_count (alphabet ! k) = (if k < 28 then 5 else 4)"
    by (intro allI impI) (rule symbol_count_nth)
qed (rule length_alphabet distinct_alphabet)+

text \<open>
  C6 as stated fails: the symbol \<open>A\<close> is selected by five byte values and the symbol
  \<open>9\<close> by four.
\<close>

theorem makeToken_not_uniform:
  "symbol_count CHR ''A'' = 5 \<and> symbol_count CHR ''9'' = 4
   \<and> CHR ''A'' \<in> set alphabet \<and> CHR ''9'' \<in> set alphabet"
proof -
  have a: "alphabet ! 0 = CHR ''A''" and z: "alphabet ! 56 = CHR ''9''"
    by (simp_all add: alphabet_def)
  have "symbol_count (alphabet ! 0) = 5" and "symbol_count (alphabet ! 56) = 4"
    by (simp_all add: symbol_count_nth)
  moreover have "CHR ''A'' \<in> set alphabet" and "CHR ''9'' \<in> set alphabet"
    by (simp_all add: alphabet_def)
  ultimately show ?thesis
    by (simp add: a z)
qed

theorem makeToken_length_alphabet_bias_witness:
  "makeToken (\<lambda>i. 7) 3 = ''HHH'' \<and> length (makeToken (\<lambda>i. 7) 3) = 3
   \<and> makeToken (\<lambda>i. 7) 3 ! 1 = alphabet ! (unat (7 :: 8 word) mod 57)
   \<and> symbol_count (alphabet ! 30) = 4"
proof -
  note t = makeToken_length_alphabet_bias [of "\<lambda>i. 7" 3]
  have 1: "makeToken (\<lambda>i. 7) 3 = ''HHH''" by code_simp
  have 2: "length (makeToken (\<lambda>i. 7) 3) = 3" using t by (elim conjE)
  have 3: "makeToken (\<lambda>i. 7) 3 ! 1 = alphabet ! (unat (7 :: 8 word) mod 57)"
    using t by (elim conjE) simp
  have 4: "symbol_count (alphabet ! 30) = 4"
    using t by (elim conjE) simp
  show ?thesis using 1 2 3 4 by (intro conjI)
qed

section \<open>Visibility after a mutation\<close>

lemma payload_invariant:
  "visibility_invariant (apply_payload (togglePublic_payload toISOString now art) r)"
  "visibility_invariant (apply_payload (extendTwoWeeks_payload toISOString now art) r)"
  by (simp_all add: visibility_invariant_def apply_payload_def togglePublic_payload_def
      extendTwoWeeks_payload_def Let_def)

lemma update_invariant:
  assumes "list_all visibility_invariant (rows b)"
    and "\<And>r. visibility_invariant (apply_payload p r)"
  shows "list_all visibility_invariant (rows (update_artworks p i err b))"
  using assms by (auto simp: update_artworks_def list_all_iff)

lemma rows_load: "rows (snd (load f res (pg, b))) = rows b"
  by (simp add: load_def select_artworks_def Let_def split: sum.splits)

lemma rows_reload_after: "rows (snd (reload_after res (pg, b))) = rows b"
  by (simp add: reload_after_def rows_load split: option.splits)

lemma rows_togglePublic:
  "rows (snd (togglePublic toISOString now err res art (pg, b)))
     = rows (update_artworks (togglePublic_payload toISOString now art) (id' art) err b)"
proof (cases err)
  case None
  then show ?thesis
    using rows_reload_after
    by (simp add: togglePublic_def Let_def split_beta)
next
  case (Some e)
  then show ?thesis
    by (simp add: togglePublic_def Let_def)
qed

lemma rows_extendTwoWeeks:
  "rows (snd (extendTwoWeeks toISOString now err res art (pg, b)))
     = rows (update_artworks (extendTwoWeeks_payload toISOString now art) (id' art) err b)"
proof (cases err)
  case None
  then show ?thesis
    using rows_reload_after
    by (simp add: extendTwoWeeks_def Let_def split_beta)
next
  case (Some e)
  then show ?thesis
    by (simp add: extendTwoWeeks_def Let_def)
qed

lemma rows_deleteArtwork:
  "rows (snd (deleteArtwork pathname decode ok stErr dbErr art (pg, b)))
     = (if ok \<and> dbErr = None then filter (\<lambda>r. id' r \<noteq> id' art) (rows b) else rows b)"
  by (simp add: deleteArtwork_def Let_def delete_artworks_def remove_storage_def
      split: option.splits)

text \<open>
  C2. After publish, un-publish, extend and delete, an artwork that is not public has no
  \<open>public_until\<close>: the payload of \<open>togglePublic\<close> has a null \<open>public_until\<close> exactly when
  its \<open>is_public\<close> is false, \<open>extendTwoWeeks\<close> only writes \<open>is_public = true\<close>, a row
  that either payload has been applied to satisfies the invariant whatever it held before,
  and each handler leaves a table of rows that satisfy it in that state.
\<close>

theorem visibility_invariant_after_mutation:
  "visibility_invariant (apply_payload (togglePublic_payload toISOString now art) r)
   \<and> visibility_invariant (apply_payload (extendTwoWeeks_payload toISOString now art) r)
   \<and> (p_public_until (togglePublic_payload toISOString now art) = None)
       = (\<not> p_is_public (togglePublic_payload toISOString now art))
   \<and> p_is_public (extendTwoWeeks_payload toISOString now art)
   \<and> (list_all visibility_invariant (rows b) \<longrightarrow>
        list_all visibility_invariant
          (rows (snd (togglePublic toISOString now err res art (pg, b))))
        \<and> list_all visibility_invariant
          (rows (snd (extendTwoWeeks toISOString now err res art (pg, b))))
        \<and> list_all visibility_invariant
          (rows (snd (deleteArtwork pathname decode ok stErr dbErr art (pg, b)))))
   \<and> (err = None \<longrightarrow>
        (\<forall>x \<in> set (rows (snd (togglePublic toISOString now err res art (pg, b)))).
           id' x = id' art \<longrightarrow> visibility_invariant x)
        \<and> (\<forall>x \<in> set (rows (snd (extendTwoWeeks toISOString now err res art (pg, b)))).
           id' x = id' art \<longrightarrow> visibility_invariant x))"
proof (intro conjI impI)
  show "visibility_invariant (apply_payload (togglePublic_payload toISOString now art) r)"
    by (rule payload_invariant)
  show "visibility_invariant (apply_payload (extendTwoWeeks_payload toISOString now art) r)"
    by (rule payload_invariant)
  show "(p_public_until (togglePublic_payload toISOString now art) = None)
       = (\<not> p_is_public (togglePublic_payload toISOString now art))"
    by (simp add: togglePublic_payload_def Let_def)
  show "p_is_public (extendTwoWeeks_payload toISOString now art)"
    by (simp add: extendTwoWeeks_payload_def)
next
  assume inv: "list_all visibility_invariant (rows b)"
  show "list_all visibility_invariant
          (rows (snd (togglePublic toISOString now err res art (pg, b))))"
    unfolding rows_togglePublic
    using inv by (rule update_invariant) (rule payload_invariant)
  show "list_all visibility_invariant
          (rows (snd (extendTwoWeeks toISOString now err res art (pg, b))))"
    unfolding rows_extendTwoWeeks
    using inv by (rule update_invariant) (rule payload_invariant)
  show "list_all visibility_invariant
          (rows (snd (deleteArtwork pathname decode ok stErr dbErr art (pg, b))))"
    using inv by (auto simp: rows_deleteArtwork list_all_iff)
next
  assume ok: "err = None"
  show "\<forall>x \<in> set (rows (snd (togglePublic toISOString now err res art (pg, b)))).
           id' x = id' art \<longrightarrow> visibility_invariant x"
    unfolding rows_togglePublic using ok payload_invariant(1)
    by (auto simp: update_artworks_def apply_payload_def)
  show "\<forall>x \<in> set (rows (snd (extendTwoWeeks toISOString now err res art (pg, b)))).
           id' x = id' art \<longrightarrow> visibility_invariant x"
    unfolding rows_extendTwoWeeks using ok payload_invariant(2)
    by (auto simp: update_artworks_def apply_payload_def)
qed

theorem visibility_invariant_after_mutation_witness:
  "list_all visibility_invariant (rows sample_backend)
   \<and> rows (snd (togglePublic sample_toISOString 1704067200000 None (Inr []) sample_art
              (sample_page, sample_backend)))
       = [sample_art\<lparr>is_public := False, public_until := None\<rparr>]
   \<and> list_all visibility_invariant
       (rows (snd (togglePublic sample_toISOString 1704067200000 None (Inr []) sample_art
                (sample_page, sample_backend))))
   \<and> p_is_public (extendTwoWeeks_payload sample_toISOString 1704067200000 sample_art)"
proof -
  note t = visibility_invariant_after_mutation
    [of sample_toISOString 1704067200000 sample_art sample_art sample_backend None "Inr []"
       sample_page "\<lambda>s. None" "\<lambda>s. None" True None None]
  have 1: "list_all visibility_invariant (rows sample_backend)"
    by (simp add: sample_backend_def sample_art_def visibility_invariant_def)
  have 2: "rows (snd (togglePublic sample_toISOString 1704067200000 None (Inr []) sample_art
              (sample_page, sample_backend)))
       = [sample_art\<lparr>is_public := False, public_until := None\<rparr>]"
    by (simp add: rows_togglePublic update_artworks_def apply_payload_def
        togglePublic_payload_def sample_backend_def sample_art_def)
  have 3: "list_all visibility_invariant
       (rows (snd (togglePublic sample_toISOString 1704067200000 None (Inr []) sample_art
                (sample_page, sample_backend))))"
    using t 1 by blast
  have 4: "p_is_public (extendTwoWeeks_payload sample_toISOString 1704067200000 sample_art)"
    using t by blast
  show ?thesis using 1 2 3 4 by (intro conjI)
qed

section \<open>Publish, un-publish and extend\<close>

lemma TWO_WEEKS_MS_days: "TWO_WEEKS_MS = 14 * msPerDay"
  by (simp add: TWO_WEEKS_MS_def msPerDay_def)

text \<open>
  C3. Publishing (\<open>togglePublic\<close> on a private artwork) writes \<open>is_public = true\<close> and
  the instant fourteen days after now; un-publishing (\<open>togglePublic\<close> on a public
  artwork) writes \<open>is_public = false\<close> and a null \<open>public_until\<close>; \<open>extendTwoWeeks\<close>
  writes \<open>is_public = true\<close> and the instant fourteen days after now. When the backend
  accepts the update, the rows with the artwork's id hold exactly the payload's two
  fields, and the other rows are as before.
\<close>

theorem publish_unpublish_extend_writes:
  "(\<not> is_public art \<longrightarrow>
      togglePublic_payload toISOString now art
        = \<lparr>p_is_public = True, p_public_until = Some (toISOString (now + 14 * msPerDay))\<rparr>)
   \<and> (is_public art \<longrightarrow>
      togglePublic_payload toISOString now art
        = \<lparr>p_is_public = False, p_public_until = None\<rparr>)
   \<and> extendTwoWeeks_payload toISOString now art
        = \<lparr>p_is_public = True, p_public_until = Some (toISOString (now + 14 * msPerDay))\<rparr>
   \<and> rows (snd (togglePublic toISOString now None res art (pg, b)))
        = map (\<lambda>r. if id' r = id' art
                    then r\<lparr>is_public := \<not> is_public art,
                           public_until := (if is_public art then None
                                            else Some (toISOString (now + 14 * msPerDay)))\<rparr>
                    else r) (rows b)
   \<and> rows (snd (extendTwoWeeks toISOString now None res art (pg, b)))
        = map (\<lambda>r. if id' r = id' art
                    then r\<lparr>is_public := True,
                           public_until := Some (toISOString (now + 14 * msPerDay))\<rparr>
                    else r) (rows b)
   \<and> rows (snd (togglePublic toISOString now (Some e) res art (pg, b))) = rows b
   \<and> rows (snd (extendTwoWeeks toISOString now (Some e) res art (pg, b))) = rows b"
proof (intro conjI impI)
  assume "\<not> is_public art"
  then show "togglePublic_payload toISOString now art
        = \<lparr>p_is_public = True, p_public_until = Some (toISOString (now + 14 * msPerDay))\<rparr>"
    by (simp add: togglePublic_payload_def TWO_WEEKS_MS_days)
next
  assume "is_public art"
  then show "togglePublic_payload toISOString now art
        = \<lparr>p_is_public = False, p_public_until = None\<rparr>"
    by (simp add: togglePublic_payload_def)
next
  show "extendTwoWeeks_payload toISOString now art
        = \<lparr>p_is_public = True, p_public_until = Some (toISOString (now + 14 * msPerDay))\<rparr>"
    by (simp add: extendTwoWeeks_payload_def TWO_WEEKS_MS_days)
  show "rows (snd (togglePublic toISOString now None res art (pg, b)))
        = map (\<lambda>r. if id' r = id' art
                    then r\<lparr>is_public := \<not> is_public art,
                           public_until := (if is_public art then None
                                            else Some (toISOString (now + 14 * msPerDay)))\<rparr>
                    else r) (rows b)"
    by (simp add: rows_togglePublic update_artworks_def apply_payload_def
        togglePublic_payload_def TWO_WEEKS_MS_days)
  show "rows (snd (extendTwoWeeks toISOString now None res art (pg, b)))
        = map (\<lambda>r. if id' r = id' art
                    then r\<lparr>is_public := True,
                           public_until := Some (toISOString (now + 14 * msPerDay))\<rparr>
                    else r) (rows b)"
    by (simp add: rows_extendTwoWeeks update_artworks_def apply_payload_def
        extendTwoWeeks_payload_def TWO_WEEKS_MS_days)
  show "rows (snd (togglePublic toISOString now (Some e) res art (pg, b))) = rows b"
    by (simp add: rows_togglePublic update_artworks_def)
  show "rows (snd (extendTwoWeeks toISOString now (Some e) res art (pg, b))) = rows b"
    by (simp add: rows_extendTwoWeeks update_artworks_def)
qed

theorem publish_unpublish_extend_writes_witness:
  "is_public sample_art
   \<and> togglePublic_payload sample_toISOString 1704067200000 sample_art
       = \<lparr>p_is_public = False, p_public_until = None\<rparr>
   \<and> \<not> is_public (sample_art\<lparr>is_public := False, public_until := None\<rparr>)
   \<and> togglePublic_payload sample_toISOString 1704067200000
         (sample_art\<lparr>is_public := False, public_until := None\<rparr>)
       = \<lparr>p_is_public = True, p_public_until = Some ''2024-01-15T00:00:00.000Z''\<rparr>
   \<and> 1704067200000 + 14 * msPerDay = 1705276800000"
proof -
  have 1: "is_public sample_art"
    by (simp add: sample_art_def)
  have 2: "togglePublic_payload sample_toISOString 1704067200000 sample_art
       = \<lparr>p_is_public = False, p_public_until = None\<rparr>"
    using publish_unpublish_extend_writes [of sample_art sample_toISOString 1704067200000] 1
    by blast
  have 3: "\<not> is_public (sample_art\<lparr>is_public := False, public_until := None\<rparr>)"
    by simp
  have 5: "1704067200000 + 14 * msPerDay = 1705276800000"
    by (simp add: msPerDay_def)
  have "togglePublic_payload sample_toISOString 1704067200000
         (sample_art\<lparr>is_public := False, public_until := None\<rparr>)
       = \<lparr>p_is_public = True,
          p_public_until = Some (sample_toISOString (1704067200000 + 14 * msPerDay))\<rparr>"
    using publish_unpublish_extend_writes
      [of "sample_art\<lparr>is_public := False, public_until := None\<rparr>" sample_toISOString
          1704067200000] 3
    by blast
  then have 4: "togglePublic_payload sample_toISOString 1704067200000
         (sample_art\<lparr>is_public := False, public_until := None\<rparr>)
       = \<lparr>p_is_public = True, p_public_until = Some ''2024-01-15T00:00:00.000Z''\<rparr>"
    by (simp add: 5 sample_toISOString_def)
  show ?thesis using 1 2 3 4 5 by (intro conjI)
qed

section \<open>The extend control\<close>

lemma isExpired_iff:
  "isExpired getTime now a
     = (is_public a
        \<and> (\<exists>s t. public_until a = Some s \<and> s \<noteq> [] \<and> getTime s = Some t \<and> t \<le> now))"
  by (auto simp: isExpired_def split: option.splits)

lemma extendEnabled_iff_expired:
  "extendEnabled getTime now a = (StatusBadge getTime now a = PublicExpired)"
  by (auto simp: extendEnabled_def StatusBadge_def isExpired_def Let_def)

text \<open>
  C4 as stated fails: an artwork that is public and expired, while a mutation of it is in
  flight (\<open>busyId\<close> is its id), is in the state \<open>PublicExpired\<close> and its extend button
  is disabled.
\<close>

theorem extend_disabled_while_busy:
  "StatusBadge sample_getTime 1705276800001 sample_art = PublicExpired
   \<and> extend_disabled sample_getTime 1705276800001 (Some ''a1'') sample_art
   \<and> \<not> extend_click_runs sample_getTime 1705276800001 (Some ''a1'') sample_art"
  by (simp add: StatusBadge_def isExpired_def extend_disabled_def extend_click_runs_def
      extendEnabled_def busy_def sample_art_def sample_getTime_def)

text \<open>
  C4 as amended. The flag \<open>extendEnabled\<close> is true exactly when the computed state is
  \<open>PublicExpired\<close>, that is when \<open>is_public\<close> is true and \<open>public_until\<close> is a
  non-empty text whose time is at most now. The extend button is enabled, and a click on
  it runs \<open>extendTwoWeeks\<close>, exactly when the state is \<open>PublicExpired\<close> and no mutation
  of that artwork is in flight. In the states \<open>Private\<close> and \<open>PublicActive\<close> it is disabled.
\<close>

theorem extend_enabled_iff_expired_and_idle:
  "extendEnabled getTime now a = (StatusBadge getTime now a = PublicExpired)
   \<and> extendEnabled getTime now a
       = (is_public a
          \<and> (\<exists>s t. public_until a = Some s \<and> s \<noteq> [] \<and> getTime s = Some t \<and> t \<le> now))
   \<and> (\<not> extend_disabled getTime now busy_id a)
       = (StatusBadge getTime now a = PublicExpired \<and> busy_id \<noteq> Some (id' a))
   \<and> extend_click_runs getTime now busy_id a
       = (StatusBadge getTime now a = PublicExpired \<and> busy_id \<noteq> Some (id' a))
   \<and> (StatusBadge getTime now a = Private \<or> StatusBadge getTime now a = PublicActive
        \<longrightarrow> extend_disabled getTime now busy_id a
            \<and> \<not> extend_click_runs getTime now busy_id a)"
proof (intro conjI)
  show "extendEnabled getTime now a = (StatusBadge getTime now a = PublicExpired)"
    by (rule extendEnabled_iff_expired)
  show "extendEnabled getTime now a
       = (is_public a
          \<and> (\<exists>s t. public_until a = Some s \<and> s \<noteq> [] \<and> getTime s = Some t \<and> t \<le> now))"
    using isExpired_iff [of getTime now a] by (auto simp: extendEnabled_def Let_def)
  show "(\<not> extend_disabled getTime now busy_id a)
       = (StatusBadge getTime now a = PublicExpired \<and> busy_id \<noteq> Some (id' a))"
    by (simp add: extend_disabled_def busy_def extendEnabled_iff_expired)
  show "extend_click_runs getTime now busy_id a
       = (StatusBadge getTime now a = PublicExpired \<and> busy_id \<noteq> Some (id' a))"
    by (simp add: extend_click_runs_def busy_def extendEnabled_iff_expired)
  show "StatusBadge getTime now a = Private \<or> StatusBadge getTime now a = PublicActive
        \<longrightarrow> extend_disabled getTime now busy_id a
            \<and> \<not> extend_click_runs getTime now busy_id a"
    by (auto simp: extend_disabled_def extend_click_runs_def extendEnabled_iff_expired)
qed

theorem extend_enabled_iff_expired_and_idle_witness:
  "StatusBadge sample_getTime 1705276800000 sample_art = PublicExpired
   \<and> \<not> extend_disabled sample_getTime 1705276800000 None sample_art
   \<and> StatusBadge sample_getTime 1705276799999 sample_art = PublicActive
   \<and> extend_disabled sample_getTime 1705276799999 None sample_art
   \<and> \<not> extend_click_runs sample_getTime 1705276799999 None sample_art"
proof -
  have 1: "StatusBadge sample_getTime 1705276800000 sample_art = PublicExpired"
    by (simp add: StatusBadge_def isExpired_def sample_art_def sample_getTime_def)
  have 2: "\<not> extend_disabled sample_getTime 1705276800000 None sample_art"
    using extend_enabled_iff_expired_and_idle [of sample_getTime 1705276800000 sample_art None] 1
    by simp
  have 3: "StatusBadge sample_getTime 1705276799999 sample_art = PublicActive"
    by (simp add: StatusBadge_def isExpired_def sample_art_def sample_getTime_def)
  have 4: "extend_disabled sample_getTime 1705276799999 None sample_art
           \<and> \<not> extend_click_runs sample_getTime 1705276799999 None sample_art"
    using extend_enabled_iff_expired_and_idle [of sample_getTime 1705276799999 sample_art None] 3
    by blast
  show ?thesis using 1 2 3 4 by blast
qed

section \<open>An artwork without \<open>public_until\<close>\<close>

text \<open>
  C10. For an artwork whose \<open>public_until\<close> is null, \<open>isExpired\<close> is false at every
  time and under every parser, also when \<open>is_public\<close> is true: the null is never
  parsed or compared. A public one is shown as \<open>PublicActive\<close>, never as
  \<open>PublicExpired\<close>, and its extend button is disabled and does nothing.
\<close>

theorem null_public_until_never_expires:
  assumes "public_until a = None"
  shows "\<not> isExpired getTime now a
   \<and> (is_public a \<longrightarrow> StatusBadge getTime now a = PublicActive)
   \<and> StatusBadge getTime now a \<noteq> PublicExpired
   \<and> \<not> extendEnabled getTime now a
   \<and> extend_disabled getTime now busy_id a
   \<and> \<not> extend_click_runs getTime now busy_id a"
proof -
  have e: "\<not> isExpired getTime now a"
    using assms by (simp add: isExpired_def)
  then show ?thesis
    by (simp add: StatusBadge_def extendEnabled_def extend_disabled_def
        extend_click_runs_def Let_def)
qed

theorem null_public_until_never_expires_witness:
  "public_until (sample_art\<lparr>public_until := None\<rparr>) = None
   \<and> is_public (sample_art\<lparr>public_until := None\<rparr>)
   \<and> \<not> isExpired sample_getTime 1705276800001 (sample_art\<lparr>public_until := None\<rparr>)
   \<and> StatusBadge sample_getTime 1705276800001 (sample_art\<lparr>public_until := None\<rparr>)
       = PublicActive
   \<and> extend_disabled sample_getTime 1705276800001 None (sample_art\<lparr>public_until := None\<rparr>)"
proof -
  have 1: "public_until (sample_art\<lparr>public_until := None\<rparr>) = None"
    by simp
  have 2: "is_public (sample_art\<lparr>public_until := None\<rparr>)"
    by (simp add: sample_art_def)
  note t = null_public_until_never_expires
    [OF 1, of sample_getTime 1705276800001 None]
  show ?thesis using 1 2 t by blast
qed

section \<open>Days left\<close>

lemma ceil_div_ceiling:
  "ceil_div t d = \<lceil>real_of_int t / real_of_int d\<rceil>"
  by (simp add: ceil_div_def ceiling_divide_eq_div)

text \<open>
  C5. For a \<open>public_until\<close> that is a timestamp (a non-empty text with a time \<open>ts\<close>),
  \<open>daysLeft\<close> is the ceiling of \<open>(ts - now)\<close> over one day: 2 at 36 hours after now, 0
  at one second before now. The gallery shows every value that is at most 0 as the
  "ends today" label, and a number of days only when it is positive. \<open>ts\<close> and \<open>now\<close>
  are time values at most 2^53 milliseconds apart (some 285000 years).
\<close>

theorem daysLeft_ceiling:
  assumes "s \<noteq> []" and "getTime s = Some ts"
    and "\<bar>ts\<bar> \<le> 8640000000000000" and "\<bar>now\<bar> \<le> 8640000000000000"
    and "\<bar>ts - now\<bar> \<le> 2 ^ 53"
  shows "daysLeft getTime now (Some s) = Some \<lceil>real_of_int (ts - now) / real_of_int msPerDay\<rceil>
   \<and> (ts = now + 36 * msPerHour \<longrightarrow> daysLeft getTime now (Some s) = Some 2)
   \<and> (ts = now - 1000 \<longrightarrow> daysLeft getTime now (Some s) = Some 0)
   \<and> (\<forall>d. d \<le> 0 \<longrightarrow> leftText (Some d) = EndsToday)
   \<and> (\<forall>k. leftText (daysLeft getTime now (Some s)) = DaysRemaining k \<longrightarrow> 0 < k)"
proof -
  have e: "double_of_difference (ts - now) = ts - now"
    using assms(5) by (simp add: double_of_difference_def)
  have d: "daysLeft getTime now (Some s) = Some (ceil_div (ts - now) msPerDay)"
    using assms(1,2) by (simp add: daysLeft_def e msPerDay_def)
  have 1: "daysLeft getTime now (Some s)
             = Some \<lceil>real_of_int (ts - now) / real_of_int msPerDay\<rceil>"
    by (simp add: d ceil_div_ceiling)
  have 2: "ts = now + 36 * msPerHour \<longrightarrow> daysLeft getTime now (Some s) = Some 2"
    by (simp add: d ceil_div_def msPerDay_def msPerHour_def)
  have 3: "ts = now - 1000 \<longrightarrow> daysLeft getTime now (Some s) = Some 0"
    by (simp add: d ceil_div_def msPerDay_def)
  have 4: "\<forall>d. d \<le> 0 \<longrightarrow> leftText (Some d) = EndsToday"
    by (simp add: leftText_def)
  have 5: "\<forall>k. leftText (daysLeft getTime now (Some s)) = DaysRemaining k \<longrightarrow> 0 < k"
    by (auto simp: d leftText_def split: if_splits)
  show ?thesis using 1 2 3 4 5 by (intro conjI)
qed

theorem daysLeft_ceiling_witness:
  "''2024-01-15T00:00:00.000Z'' \<noteq> []
   \<and> sample_getTime ''2024-01-15T00:00:00.000Z'' = Some 1705276800000
   \<and> \<bar>1705276800000 :: int\<bar> \<le> 8640000000000000
   \<and> \<bar>1705147200000 :: int\<bar> \<le> 8640000000000000
   \<and> \<bar>1705276800000 - 1705147200000 :: int\<bar> \<le> 2 ^ 53
   \<and> daysLeft sample_getTime 1705147200000 (Some ''2024-01-15T00:00:00.000Z'') = Some 2
   \<and> daysLeft sample_getTime 1705276801000 (Some ''2024-01-15T00:00:00.000Z'') = Some 0
   \<and> leftText (daysLeft sample_getTime 1705276801000 (Some ''2024-01-15T00:00:00.000Z''))
       = EndsToday
   \<and> leftText (daysLeft sample_getTime 1705147200000 (Some ''2024-01-15T00:00:00.000Z''))
       = DaysRemaining 2"
proof -
  have 1: "''2024-01-15T00:00:00.000Z'' \<noteq> []" by simp
  have 2: "sample_getTime ''2024-01-15T00:00:00.000Z'' = Some 1705276800000"
    by (simp add: sample_getTime_def)
  have b: "\<bar>1705276800000 :: int\<bar> \<le> 8640000000000000"
    "\<bar>1705147200000 :: int\<bar> \<le> 8640000000000000"
    "\<bar>1705276801000 :: int\<bar> \<le> 8640000000000000"
    "\<bar>1705276800000 - 1705147200000 :: int\<bar> \<le> 2 ^ 53"
    "\<bar>1705276800000 - 1705276801000 :: int\<bar> \<le> 2 ^ 53"
    by simp_all
  have 3: "daysLeft sample_getTime 1705147200000 (Some ''2024-01-15T00:00:00.000Z'') = Some 2"
  proof -
    have "(1705276800000::int) = 1705147200000 + 36 * msPerHour"
      by (simp add: msPerHour_def)
    with daysLeft_ceiling
      [of "''2024-01-15T00:00:00.000Z''" sample_getTime 1705276800000 1705147200000,
       OF 1 2 b(1) b(2) b(4)]
    show ?thesis by blast
  qed
  have 4: "daysLeft sample_getTime 1705276801000 (Some ''2024-01-15T00:00:00.000Z'') = Some 0"
  proof -
    have "(1705276800000::int) = 1705276801000 - 1000"
      by simp
    with daysLeft_ceiling
      [of "''2024-01-15T00:00:00.000Z''" sample_getTime 1705276800000 1705276801000,
       OF 1 2 b(1) b(3) b(5)]
    show ?thesis by blast
  qed
  have 5: "leftText (daysLeft sample_getTime 1705276801000 (Some ''2024-01-15T00:00:00.000Z''))
       = EndsToday"
    by (simp add: 4 leftText_def)
  have 6: "leftText (daysLeft sample_getTime 1705147200000 (Some ''2024-01-15T00:00:00.000Z''))
       = DaysRemaining 2"
    by (simp add: 3 leftText_def)
  show ?thesis using 1 2 b(1) b(2) b(4) 3 4 5 6 by (intro conjI)
qed

text \<open>
  Past 2^53 the subtraction rounds, and the result can be a day away from the ceiling of
  the exact difference: so it is for these two time values, 17279998703999999
  milliseconds apart.
\<close>

lemma daysLeft_rounded_difference:
  "daysLeft (\<lambda>s. Some (- 8639999999999999)) 8639998704000000 (Some ''x'')
     = Some (- 199999985)
   \<and> \<lceil>real_of_int (- 8639999999999999 - 8639998704000000) / real_of_int msPerDay\<rceil>
     = - 199999984"
proof -
  have "ceil_div (- 8639999999999999 - 8639998704000000) msPerDay = - 199999984"
    by (simp add: ceil_div_def msPerDay_def)
  then show ?thesis
    unfolding ceil_div_ceiling
    by (simp add: daysLeft_def double_of_difference_def ceil_div_def)
qed

section \<open>The token gate of the invite page\<close>

lemma loadAll_sent:
  "snd (loadAll getPublicUrl token guestResp artResp artFirst st)
     = (if token = [] \<or> length (trim token) < 6 then []
        else [Get_guestbook_entries_by_token token, Get_artworks_by_token token])"
  by (simp add: loadAll_def Let_def split_beta loadGuestbook_request_def
      loadArtworks_request_def)

text \<open>
  C7. For a token that is empty or whose trimmed length is less than 6, \<open>loadAll\<close> sets
  the invalid-link status, stops loading, empties the lists of artworks and of guestbook
  entries, and sends no remote procedure call. It sends the two lookups, the guestbook's
  and then the artworks', exactly when the token is not empty and its trimmed length is at
  least 6.
\<close>

theorem loadAll_short_token:
  "(token = [] \<or> length (trim token) < 6 \<longrightarrow>
      loadAll getPublicUrl token guestResp artResp artFirst st
        = (st\<lparr>loading := False, status := StatusInvalidLink,
               debug := debug st @ [TokenInvalid token], artworks := [], entries := []\<rparr>, []))
   \<and> (snd (loadAll getPublicUrl token guestResp artResp artFirst st) \<noteq> []
        \<longrightarrow> token \<noteq> [] \<and> 6 \<le> length (trim token))
   \<and> (token \<noteq> [] \<and> 6 \<le> length (trim token) \<longrightarrow>
        snd (loadAll getPublicUrl token guestResp artResp artFirst st)
          = [Get_guestbook_entries_by_token token, Get_artworks_by_token token])"
proof (intro conjI impI)
  assume "token = [] \<or> length (trim token) < 6"
  then show "loadAll getPublicUrl token guestResp artResp artFirst st
        = (st\<lparr>loading := False, status := StatusInvalidLink,
               debug := debug st @ [TokenInvalid token], artworks := [], entries := []\<rparr>, [])"
    by (simp add: loadAll_def)
next
  assume "snd (loadAll getPublicUrl token guestResp artResp artFirst st) \<noteq> []"
  then have "\<not> (token = [] \<or> length (trim token) < 6)"
    by (auto simp: loadAll_sent)
  then show "token \<noteq> []" and "6 \<le> length (trim token)"
    by simp_all
next
  assume "token \<noteq> [] \<and> 6 \<le> length (trim token)"
  then show "snd (loadAll getPublicUrl token guestResp artResp artFirst st)
          = [Get_guestbook_entries_by_token token, Get_artworks_by_token token]"
    by (simp add: loadAll_sent)
qed

theorem loadAll_short_token_witness:
  "length (trim '' abc12 '') < 6
   \<and> loadAll (\<lambda>p. p) '' abc12 '' (Inr []) (Inr []) False sample_invite
       = (\<lparr>artworks = [], entries = [], status = StatusInvalidLink,
           debug = [TokenInvalid '' abc12 ''], loading = False\<rparr>, [])
   \<and> ''abc123'' \<noteq> [] \<and> 6 \<le> length (trim ''abc123'')
   \<and> snd (loadAll (\<lambda>p. p) ''abc123'' (Inr []) (Inr []) False sample_invite)
       = [Get_guestbook_entries_by_token ''abc123'', Get_artworks_by_token ''abc123'']"
proof -
  have 1: "length (trim '' abc12 '') < 6"
    by (simp add: trim_def is_space_def)
  have 2: "loadAll (\<lambda>p. p) '' abc12 '' (Inr []) (Inr []) False sample_invite
       = (\<lparr>artworks = [], entries = [], status = StatusInvalidLink,
           debug = [TokenInvalid '' abc12 ''], loading = False\<rparr>, [])"
    using loadAll_short_token
      [of "'' abc12 ''" "\<lambda>p. p" "Inr []" "Inr []" False sample_invite] 1
    by (simp add: sample_invite_def)
  have 3: "''abc123'' \<noteq> [] \<and> 6 \<le> length (trim ''abc123'')"
    by (simp add: trim_def is_space_def)
  have 4: "snd (loadAll (\<lambda>p. p) ''abc123'' (Inr []) (Inr []) False sample_invite)
       = [Get_guestbook_entries_by_token ''abc123'', Get_artworks_by_token ''abc123'']"
    using loadAll_short_token
      [of "''abc123''" "\<lambda>p. p" "Inr []" "Inr []" False sample_invite] 3
    by blast
  show ?thesis using 1 2 3 4 by (intro conjI) simp_all
qed

section \<open>Deleting an artwork\<close>

text \<open>
  C8. Once the user has confirmed, \<open>deleteArtwork\<close> sends the removal of the storage
  object (when it has found a storage path) and then the deletion of the record; the
  deletion of the record is sent whether the storage removal failed or not. The artwork
  leaves the list \<open>items\<close> exactly when the deletion of the record has succeeded; when it
  has failed, or the user has not confirmed, \<open>items\<close> is unchanged.
\<close>

theorem deleteArtwork_order_and_items:
  "requests (snd (deleteArtwork pathname decode True stErr dbErr art (pg, b)))
     = requests b
       @ (if storagePath_of pathname decode art \<noteq> []
          then [StorageRemove (storagePath_of pathname decode art)] else [])
       @ [ArtworksDelete (id' art)]
   \<and> items (fst (deleteArtwork pathname decode True stErr None art (pg, b)))
     = filter (\<lambda>x. id' x \<noteq> id' art) (items pg)
   \<and> items (fst (deleteArtwork pathname decode True stErr (Some e) art (pg, b))) = items pg
   \<and> msg (fst (deleteArtwork pathname decode True stErr (Some e) art (pg, b)))
     = DbDeleteFailed e
   \<and> rows (snd (deleteArtwork pathname decode True stErr None art (pg, b)))
     = filter (\<lambda>r. id' r \<noteq> id' art) (rows b)
   \<and> rows (snd (deleteArtwork pathname decode True stErr (Some e) art (pg, b))) = rows b
   \<and> deleteArtwork pathname decode False stErr dbErr art (pg, b) = (pg, b)"
proof (intro conjI)
  show "requests (snd (deleteArtwork pathname decode True stErr dbErr art (pg, b)))
     = requests b
       @ (if storagePath_of pathname decode art \<noteq> []
          then [StorageRemove (storagePath_of pathname decode art)] else [])
       @ [ArtworksDelete (id' art)]"
    by (simp add: deleteArtwork_def storagePath_of_def Let_def delete_artworks_def
        remove_storage_def split: option.splits)
  show "items (fst (deleteArtwork pathname decode True stErr None art (pg, b)))
     = filter (\<lambda>x. id' x \<noteq> id' art) (items pg)"
    by (simp add: deleteArtwork_def Let_def split: option.splits)
  show "items (fst (deleteArtwork pathname decode True stErr (Some e) art (pg, b))) = items pg"
    by (simp add: deleteArtwork_def Let_def split: option.splits)
  show "msg (fst (deleteArtwork pathname decode True stErr (Some e) art (pg, b)))
     = DbDeleteFailed e"
    by (simp add: deleteArtwork_def Let_def split: option.splits)
  show "rows (snd (deleteArtwork pathname decode True stErr None art (pg, b)))
     = filter (\<lambda>r. id' r \<noteq> id' art) (rows b)"
    by (simp add: rows_deleteArtwork)
  show "rows (snd (deleteArtwork pathname decode True stErr (Some e) art (pg, b))) = rows b"
    by (simp add: rows_deleteArtwork)
  show "deleteArtwork pathname decode False stErr dbErr art (pg, b) = (pg, b)"
    by (simp add: deleteArtwork_def)
qed

theorem deleteArtwork_order_and_items_witness:
  "storagePath_of sample_pathname Some sample_art = ''17-ab.jpg''
   \<and> requests (snd (deleteArtwork sample_pathname Some True (Some ''storage down'') None
                    sample_art (sample_page, sample_backend)))
       = [StorageRemove ''17-ab.jpg'', ArtworksDelete ''a1'']
   \<and> items (fst (deleteArtwork sample_pathname Some True (Some ''storage down'') None
                    sample_art (sample_page, sample_backend))) = []
   \<and> items (fst (deleteArtwork sample_pathname Some True None (Some ''denied'')
                    sample_art (sample_page, sample_backend))) = [sample_art]"
proof -
  have 1: "storagePath_of sample_pathname Some sample_art = ''17-ab.jpg''"
    by (simp add: storagePath_of_def getStoragePathFromPrivateImagePath_def sample_art_def
        sample_pathname_def trim_def is_space_def startsWith_def Let_def)
  note t = deleteArtwork_order_and_items
    [of sample_pathname Some "Some ''storage down''" None sample_art sample_page
        sample_backend "''denied''"]
  note u = deleteArtwork_order_and_items
    [of sample_pathname Some None None sample_art sample_page sample_backend "''denied''"]
  have 2: "requests (snd (deleteArtwork sample_pathname Some True (Some ''storage down'') None
                    sample_art (sample_page, sample_backend)))
       = [StorageRemove ''17-ab.jpg'', ArtworksDelete ''a1'']"
  proof -
    have i: "id' sample_art = ''a1''" by (simp add: sample_art_def)
    have r: "requests sample_backend = []" by (simp add: sample_backend_def)
    from t show ?thesis by (simp add: 1 i r)
  qed
  have p: "items sample_page = [sample_art]" by (simp add: sample_page_def)
  have 3: "items (fst (deleteArtwork sample_pathname Some True (Some ''storage down'') None
                    sample_art (sample_page, sample_backend))) = []"
    using t by (simp add: p)
  have 4: "items (fst (deleteArtwork sample_pathname Some True None (Some ''denied'')
                    sample_art (sample_page, sample_backend))) = [sample_art]"
    using u by (simp add: p)
  show ?thesis using 1 2 3 4 by (intro conjI)
qed

section \<open>The calendar\<close>

lemma DayFromYear_upper: "1970 \<le> y \<Longrightarrow> DayFromYear y \<le> 366 * (y - 1970)"
proof (induction y rule: int_ge_induct)
  case base
  show ?case by (simp add: DayFromYear_1970)
next
  case (step i)
  then show ?case
    using DayFromYear_step [of i] DaysInYear_bounds [of i] by simp
qed

lemma DayFromYear_lower: "y \<le> 1970 \<Longrightarrow> DayFromYear y \<le> 365 * (y - 1970)"
proof (induction y rule: int_le_induct)
  case base
  show ?case by (simp add: DayFromYear_1970)
next
  case (step i)
  then show ?case
    using DayFromYear_step [of "i - 1"] DaysInYear_bounds [of "i - 1"] by simp
qed

lemma DayFromYear_upper_ge: "1970 \<le> y \<Longrightarrow> 365 * (y - 1970) \<le> DayFromYear y"
proof (induction y rule: int_ge_induct)
  case base
  show ?case by (simp add: DayFromYear_1970)
next
  case (step i)
  then show ?case
    using DayFromYear_step [of i] DaysInYear_bounds [of i] by simp
qed

lemma DayFromYear_lower_ge: "y \<le> 1970 \<Longrightarrow> 366 * (y - 1970) \<le> DayFromYear y"
proof (induction y rule: int_le_induct)
  case base
  show ?case by (simp add: DayFromYear_1970)
next
  case (step i)
  then show ?case
    using DayFromYear_step [of "i - 1"] DaysInYear_bounds [of "i - 1"] by simp
qed

lemma DayFromYear_mono: "y \<le> z \<Longrightarrow> DayFromYear y \<le> DayFromYear z"
proof (induction z rule: int_ge_induct)
  case base
  show ?case by simp
next
  case (step i)
  then show ?case
    using DayFromYear_step [of i] DaysInYear_bounds [of i] by simp
qed

lemma year_from_spec:
  "DayFromYear y \<le> d \<Longrightarrow>
     DayFromYear (year_from y d) \<le> d \<and> d < DayFromYear (year_from y d + 1)"
proof (induction y d rule: year_from.induct)
  case (1 y d)
  show ?case
  proof (cases "DayFromYear (y + 1) \<le> d")
    case True
    with "1.IH" have "DayFromYear (year_from (y + 1) d) \<le> d
        \<and> d < DayFromYear (year_from (y + 1) d + 1)"
      by simp
    moreover have "year_from y d = year_from (y + 1) d"
      using True by (subst year_from.simps) simp
    ultimately show ?thesis by simp
  next
    case False
    then have "year_from y d = y"
      by (subst year_from.simps) simp
    with False "1.prems" show ?thesis by simp
  qed
qed

lemma year_start_before:
  "DayFromYear (1970 + (if 0 \<le> d then d div 366 else d div 365)) \<le> d"
proof (cases "0 \<le> d")
  case True
  then have "0 \<le> d div 366" by simp
  then have "DayFromYear (1970 + d div 366) \<le> 366 * (d div 366)"
    using DayFromYear_upper [of "1970 + d div 366"] by simp
  also have "\<dots> \<le> d"
    using mult_div_mod_eq [of 366 d] pos_mod_sign [of 366 d] by linarith
  finally show ?thesis using True by simp
next
  case False
  then have "d div 365 \<le> 0"
    using div_neg_pos_less0 [of d 365] by simp
  then have "DayFromYear (1970 + d div 365) \<le> 365 * (d div 365)"
    using DayFromYear_lower [of "1970 + d div 365"] by simp
  also have "\<dots> \<le> d"
    using mult_div_mod_eq [of 365 d] pos_mod_sign [of 365 d] by linarith
  finally show ?thesis using False by simp
qed

lemma YearFromTime_bounds:
  "DayFromYear (YearFromTime t) \<le> Day t" "Day t < DayFromYear (YearFromTime t + 1)"
  using year_from_spec [OF year_start_before [of "Day t"]]
  by (simp_all add: YearFromTime_def Let_def)

lemma YearFromTime_unique:
  assumes "DayFromYear y \<le> Day t" and "Day t < DayFromYear (y + 1)"
  shows "YearFromTime t = y"
proof (rule ccontr)
  assume ne: "YearFromTime t \<noteq> y"
  let ?z = "YearFromTime t"
  show False
  proof (cases "?z < y")
    case True
    then have "DayFromYear (?z + 1) \<le> DayFromYear y"
      by (intro DayFromYear_mono) simp
    with assms(1) YearFromTime_bounds(2) [of t] show False by simp
  next
    case False
    with ne have "DayFromYear (y + 1) \<le> DayFromYear ?z"
      by (intro DayFromYear_mono) simp
    with assms(2) YearFromTime_bounds(1) [of t] show False by simp
  qed
qed

lemma MonthFromTime_range: "0 \<le> MonthFromTime t" "MonthFromTime t \<le> 11"
  by (simp_all add: MonthFromTime_def Let_def)

lemma month_date_sum:
  "month_start (MonthFromTime t) (InLeapYear t) + DateFromTime t - 1 = DayWithinYear t"
  by (simp add: MonthFromTime_def DateFromTime_def month_start_def Let_def)

text \<open>Reading the calendar fields of a time and building the day from them gives its day.\<close>

lemma MakeDay_fields:
  "MakeDay (YearFromTime t) (MonthFromTime t) (DateFromTime t + k) = Day t + k"
proof -
  let ?m = "MonthFromTime t"
  have m: "?m div 12 = 0" "?m mod 12 = ?m"
    using MonthFromTime_range [of t] by simp_all
  have "MakeDay (YearFromTime t) ?m (DateFromTime t + k)
        = DayFromYear (YearFromTime t) + month_start ?m (InLeapYear t) + (DateFromTime t + k) - 1"
    by (simp add: MakeDay_def m InLeapYear_def Let_def)
  also have "\<dots> = DayFromYear (YearFromTime t) + DayWithinYear t + k"
    using month_date_sum [of t] by simp
  also have "\<dots> = Day t + k"
    by (simp add: DayWithinYear_def)
  finally show ?thesis .
qed

lemma Day_MakeDate:
  assumes "0 \<le> tm" and "tm < msPerDay"
  shows "Day (MakeDate d tm) = d" and "TimeWithinDay (MakeDate d tm) = tm"
proof -
  have "MakeDate d tm = msPerDay * d + tm"
    by (simp add: MakeDate_def)
  then show "Day (MakeDate d tm) = d"
    unfolding Day_def using assms by (intro int_div_pos_eq [where r = tm]) simp_all
  have "(d * msPerDay + tm) mod msPerDay = tm mod msPerDay"
    by simp
  then show "TimeWithinDay (MakeDate d tm) = tm"
    using assms by (simp add: TimeWithinDay_def MakeDate_def)
qed

lemma month_cases:
  fixes m :: int
  assumes "0 \<le> m" and "m \<le> 11"
  shows "m = 0 \<or> m = 1 \<or> m = 2 \<or> m = 3 \<or> m = 4 \<or> m = 5 \<or> m = 6 \<or> m = 7 \<or> m = 8
         \<or> m = 9 \<or> m = 10 \<or> m = 11"
  using assms by arith

lemma month_start_next:
  assumes "0 \<le> m" and "m \<le> 10"
  shows "month_start (m + 1) (if DaysInYear y = 366 then 1 else 0)
         = month_start m (if DaysInYear y = 366 then 1 else 0) + DaysInMonth y m"
proof -
  have "m = 0 \<or> m = 1 \<or> m = 2 \<or> m = 3 \<or> m = 4 \<or> m = 5 \<or> m = 6 \<or> m = 7 \<or> m = 8
         \<or> m = 9 \<or> m = 10"
    using assms by arith
  then show ?thesis
    by (elim disjE) (simp_all add: month_start_def DaysInMonth_def)
qed

lemma month_start_last:
  "month_start 11 (if DaysInYear y = 366 then 1 else 0) + DaysInMonth y 11 = DaysInYear y"
  using DaysInYear_bounds [of y]
  by (auto simp: month_start_def DaysInMonth_def DaysInYear_def)

lemma month_start_mono:
  assumes "0 \<le> m" and "m \<le> 11"
  shows "0 \<le> month_start m (if DaysInYear y = 366 then 1 else 0)"
    and "month_start m (if DaysInYear y = 366 then 1 else 0) + DaysInMonth y m \<le> DaysInYear y"
proof -
  note c = month_cases [OF assms]
  from c show "0 \<le> month_start m (if DaysInYear y = 366 then 1 else 0)"
    by (elim disjE) (simp_all add: month_start_def)
  from c show "month_start m (if DaysInYear y = 366 then 1 else 0) + DaysInMonth y m
               \<le> DaysInYear y"
    using DaysInYear_bounds [of y]
    by (elim disjE) (auto simp: month_start_def DaysInMonth_def DaysInYear_def)
qed

text \<open>The calendar fields of a day built from a month and a date that the month has.\<close>

lemma fields_MakeDate:
  assumes m: "0 \<le> m" "m \<le> 11"
    and dt: "1 \<le> dt" "dt \<le> DaysInMonth y m"
    and tm: "0 \<le> tm" "tm < msPerDay"
  shows "YearFromTime (MakeDate (MakeDay y m dt) tm) = y"
    and "MonthFromTime (MakeDate (MakeDay y m dt) tm) = m"
    and "DateFromTime (MakeDate (MakeDay y m dt) tm) = dt"
proof -
  let ?t = "MakeDate (MakeDay y m dt) tm"
  let ?L = "if DaysInYear y = 366 then 1 else 0 :: int"
  have md: "m div 12 = 0" "m mod 12 = m"
    using m by simp_all
  have day: "Day ?t = DayFromYear y + month_start m ?L + dt - 1"
    by (simp add: Day_MakeDate [OF tm] MakeDay_def md Let_def)
  have lo: "DayFromYear y \<le> Day ?t"
    using month_start_mono(1) [OF m, of y] dt(1) by (simp add: day)
  have hi: "Day ?t < DayFromYear (y + 1)"
    using month_start_mono(2) [OF m, of y] dt(2) by (simp add: day DayFromYear_step)
  show y: "YearFromTime ?t = y"
    using lo hi by (rule YearFromTime_unique)
  have L: "InLeapYear ?t = ?L"
    by (simp add: InLeapYear_def y)
  have dwy: "DayWithinYear ?t = month_start m ?L + dt - 1"
    by (simp add: DayWithinYear_def y day)
  note c = month_cases [OF m]
  from c show mo: "MonthFromTime ?t = m"
    using dt unfolding MonthFromTime_def L dwy Let_def
    by (elim disjE) (simp_all add: month_start_def DaysInMonth_def split: if_splits)
  from c show "DateFromTime ?t = dt"
    unfolding DateFromTime_def mo L dwy Let_def
    by (elim disjE) (simp_all add: month_start_def)
qed

section \<open>The pattern and the numbers\<close>

lemma digit_value:
  assumes "is_digit c"
  shows "0 \<le> int (of_char c) - 48" and "int (of_char c) - 48 \<le> 9"
  using assms by (simp_all add: is_digit_def)

lemma Number_foldl_bounds:
  assumes "list_all is_digit ds" and "0 \<le> n"
  shows "0 \<le> foldl (\<lambda>n c. 10 * n + (int (of_char c) - 48)) n ds
         \<and> foldl (\<lambda>n c. 10 * n + (int (of_char c) - 48)) n ds < (n + 1) * 10 ^ length ds"
  using assms
proof (induction ds arbitrary: n)
  case Nil
  then show ?case by simp
next
  case (Cons c ds)
  define k where "k = 10 * n + (int (of_char c) - 48)"
  define r where "r = foldl (\<lambda>n c. 10 * n + (int (of_char c) - 48)) k ds"
  have c: "is_digit c" and ds: "list_all is_digit ds"
    using Cons.prems(1) by simp_all
  have k0: "0 \<le> k" and k1: "k + 1 \<le> 10 * (n + 1)"
    using digit_value [OF c] Cons.prems(2) by (simp_all add: k_def)
  from Cons.IH [OF ds k0]
  have ih: "0 \<le> r" "r < (k + 1) * 10 ^ length ds"
    by (simp_all add: r_def)
  have "(k + 1) * 10 ^ length ds \<le> (10 * (n + 1)) * 10 ^ length ds"
    using k1 by (intro mult_right_mono) simp_all
  also have "\<dots> = (n + 1) * 10 ^ length (c # ds)"
    by simp
  finally have le: "(k + 1) * 10 ^ length ds \<le> (n + 1) * 10 ^ length (c # ds)" .
  have "r < (n + 1) * 10 ^ length (c # ds)"
    by (rule less_le_trans [OF ih(2) le])
  moreover have "foldl (\<lambda>n c. 10 * n + (int (of_char c) - 48)) n (c # ds) = r"
    by (simp add: r_def k_def)
  ultimately show ?case
    using ih(1) by (simp only: simp_thms)
qed

lemma Number_bounds:
  assumes "list_all is_digit ds"
  shows "0 \<le> Number ds" and "Number ds < 10 ^ length ds"
  using Number_foldl_bounds [OF assms, of 0] by (simp_all add: Number_def)

lemma digits_Some:
  assumes "digits n s = Some (m, r)"
  shows "length m = n" and "list_all is_digit m" and "s = m @ r"
  using assms by (auto simp: digits_def split: if_splits)

lemma exec_pattern_groups:
  assumes "exec_pattern t = Some (m1, m2, m3, m4, m5)"
  shows "length m1 = 4 \<and> list_all is_digit m1"
    and "length m2 = 2 \<and> list_all is_digit m2"
    and "length m3 = 2 \<and> list_all is_digit m3"
    and "length m4 = 2 \<and> list_all is_digit m4"
    and "length m5 = 2 \<and> list_all is_digit m5"
  using assms unfolding exec_pattern_def
  by (auto simp: bind_eq_Some_conv dest: digits_Some split: if_splits)

lemma exec_pattern_numbers:
  assumes "exec_pattern t = Some (m1, m2, m3, m4, m5)"
  shows "0 \<le> Number m1" "Number m1 \<le> 9999" "0 \<le> Number m2" "0 \<le> Number m3"
    "0 \<le> Number m4" "Number m4 \<le> 99" "0 \<le> Number m5"
  using exec_pattern_groups [OF assms]
    Number_bounds [of m1] Number_bounds [of m2] Number_bounds [of m3]
    Number_bounds [of m4] Number_bounds [of m5]
  by simp_all

section \<open>The validator\<close>

lemma TimeClip_in_range: "\<bar>t\<bar> \<le> 8640000000000000 \<Longrightarrow> TimeClip t = Some t"
  by (simp add: TimeClip_def)

lemma DayFromYear_range:
  assumes "0 \<le> y" and "y \<le> 9999"
  shows "- 721020 \<le> DayFromYear y" and "DayFromYear y \<le> 2938614"
proof -
  show "- 721020 \<le> DayFromYear y"
  proof (cases "1970 \<le> y")
    case True
    then show ?thesis using DayFromYear_upper_ge [of y] by simp
  next
    case False
    then show ?thesis using DayFromYear_lower_ge [of y] assms(1) by simp
  qed
  show "DayFromYear y \<le> 2938614"
  proof (cases "1970 \<le> y")
    case True
    then show ?thesis using DayFromYear_upper [of y] assms(2) by simp
  next
    case False
    then show ?thesis using DayFromYear_lower [of y] by simp
  qed
qed

lemma constructor_year_range:
  assumes "0 \<le> y" and "y \<le> 9999"
  shows "0 \<le> constructor_year y" and "constructor_year y \<le> 9999"
  using assms by (simp_all add: constructor_year_def)

lemma MakeDay_month:
  assumes "0 \<le> m" and "m \<le> 11"
  shows "MakeDay y m d
         = DayFromYear y + month_start m (if DaysInYear y = 366 then 1 else 0) + d - 1"
  using assms by (simp add: MakeDay_def Let_def)

lemma month_start_range:
  assumes "0 \<le> m" and "m \<le> 11" and "0 \<le> L"
  shows "0 \<le> month_start m L" and "month_start m L \<le> 334 + L"
  using month_cases [OF assms(1,2)] assms(3) by (auto simp: month_start_def)

lemma MakeDay_range:
  assumes "0 \<le> y" "y \<le> 9999" "0 \<le> m" "m \<le> 11" "1 \<le> d" "d \<le> 31"
  shows "- 721020 \<le> MakeDay y m d" and "MakeDay y m d \<le> 2938980"
proof -
  let ?L = "if DaysInYear y = 366 then 1 else 0 :: int"
  have L: "0 \<le> ?L" "?L \<le> 1" by simp_all
  have "0 \<le> month_start m ?L" "month_start m ?L \<le> 335"
    using month_start_range [OF assms(3,4) L(1)] L(2) by linarith+
  then show "- 721020 \<le> MakeDay y m d" and "MakeDay y m d \<le> 2938980"
    using DayFromYear_range [OF assms(1,2)] assms(5,6)
    by (simp_all add: MakeDay_month [OF assms(3,4)])
qed

lemma Date_in_range:
  assumes "- 721020 \<le> D" "D \<le> 2938981" "0 \<le> tm" "tm < msPerDay"
    and "\<bar>tza (MakeDate D tm) False\<bar> \<le> msPerDay"
  shows "TimeClip (UTC tza (MakeDate D tm)) = Some (UTC tza (MakeDate D tm))"
proof -
  have "\<bar>MakeDate D tm - tza (MakeDate D tm) False\<bar> \<le> 8640000000000000"
    using assms by (simp add: MakeDate_def msPerDay_def abs_le_iff)
  then show ?thesis
    by (simp add: UTC_def TimeClip_in_range)
qed

lemma MakeTime_hour: "MakeTime h 0 0 0 = h * msPerHour"
  by (simp add: MakeTime_def)

lemma hour_in_day:
  assumes "0 \<le> h" and "h \<le> 23"
  shows "0 \<le> h * msPerHour" and "h * msPerHour < msPerDay"
  using assms by (simp_all add: msPerHour_def msPerDay_def)

lemma TimeWithinDay_range: "0 \<le> TimeWithinDay t" "TimeWithinDay t < msPerDay"
  by (simp_all add: TimeWithinDay_def msPerDay_def)

text \<open>
  The run of the \<open>Date\<close> part of the validator on numbers that have passed its checks,
  in a zone whose offsets are within a day and in which a local time, read as an instant
  and shown again, is on the same local day.
\<close>

lemma made_at_date:
  assumes y: "0 \<le> yyyy" "yyyy \<le> 9999"
    and m: "1 \<le> mm" "mm \<le> 12"
    and d: "1 \<le> dd" "dd \<le> 31"
    and h: "0 \<le> hh" "hh \<le> 24"
    and z: "\<And>t b. \<bar>tza t b\<bar> \<le> msPerDay"
    and sd: "\<And>x. Day (LocalTime tza (UTC tza x)) = Day x"
  defines "base \<equiv> new_Date tza yyyy (mm - 1) dd 0 0 0 0"
  shows "base = Some (UTC tza (MakeDate (MakeDay (constructor_year yyyy) (mm - 1) dd) 0))"
    and "hh = 24 \<Longrightarrow>
           setHours tza (setDate tza base (map_option (\<lambda>d. d + 1) (getDate tza base))) 0 0 0 0
             = Some (UTC tza (made_at_local yyyy mm dd hh))"
    and "hh \<noteq> 24 \<Longrightarrow>
           setHours tza base hh 0 0 0 = Some (UTC tza (made_at_local yyyy mm dd hh))"
proof -
  let ?D = "MakeDay (constructor_year yyyy) (mm - 1) dd"
  have m': "0 \<le> mm - 1" "mm - 1 \<le> 11" using m by simp_all
  have D: "- 721020 \<le> ?D" "?D \<le> 2938980"
    using MakeDay_range [OF constructor_year_range [OF y] m' d] by simp_all
  have zero: "(0::int) \<le> 0" "0 < msPerDay" by (simp_all add: msPerDay_def)
  show b: "base = Some (UTC tza (MakeDate ?D 0))"
    using Date_in_range [of ?D 0 tza] D z zero
    by (simp add: base_def new_Date_def constructor_year_def MakeTime_def Let_def)
  {
    assume h24: "hh = 24"
    define t where "t = LocalTime tza (UTC tza (MakeDate ?D 0))"
    have day_t: "Day t = ?D"
      using sd [of "MakeDate ?D 0"] Day_MakeDate(1) [OF zero, of ?D] by (simp add: t_def)
    have "setDate tza base (map_option (\<lambda>d. d + 1) (getDate tza base))
          = TimeClip (UTC tza (MakeDate (?D + 1) (TimeWithinDay t)))"
      using MakeDay_fields [of t 1] day_t
      by (simp add: b setDate_def getDate_def t_def Let_def)
    also have "\<dots> = Some (UTC tza (MakeDate (?D + 1) (TimeWithinDay t)))"
      using Date_in_range [of "?D + 1" "TimeWithinDay t" tza] D z TimeWithinDay_range [of t]
      by simp
    finally have s: "setDate tza base (map_option (\<lambda>d. d + 1) (getDate tza base))
          = Some (UTC tza (MakeDate (?D + 1) (TimeWithinDay t)))" .
    have "Day (LocalTime tza (UTC tza (MakeDate (?D + 1) (TimeWithinDay t)))) = ?D + 1"
      using sd [of "MakeDate (?D + 1) (TimeWithinDay t)"]
        Day_MakeDate(1) [OF TimeWithinDay_range, of "?D + 1" t] by simp
    then have "setHours tza (Some (UTC tza (MakeDate (?D + 1) (TimeWithinDay t)))) 0 0 0 0
          = TimeClip (UTC tza (MakeDate (?D + 1) 0))"
      by (simp add: setHours_def MakeTime_def Let_def)
    also have "\<dots> = Some (UTC tza (MakeDate (?D + 1) 0))"
      using Date_in_range [of "?D + 1" 0 tza] D z zero by simp
    finally show "setHours tza (setDate tza base (map_option (\<lambda>d. d + 1) (getDate tza base)))
                    0 0 0 0 = Some (UTC tza (made_at_local yyyy mm dd hh))"
      using h24 by (simp add: s made_at_local_def)
  }
  {
    assume "hh \<noteq> 24"
    with h have h': "0 \<le> hh" "hh \<le> 23" by simp_all
    have "Day (LocalTime tza (UTC tza (MakeDate ?D 0))) = ?D"
      using sd [of "MakeDate ?D 0"] Day_MakeDate(1) [OF zero, of ?D] by simp
    then have "setHours tza base hh 0 0 0 = TimeClip (UTC tza (MakeDate ?D (hh * msPerHour)))"
      by (simp add: b setHours_def MakeTime_hour Let_def)
    also have "\<dots> = Some (UTC tza (MakeDate ?D (hh * msPerHour)))"
      using Date_in_range [of ?D "hh * msPerHour" tza] D z hour_in_day [OF h'] by simp
    finally show "setHours tza base hh 0 0 0 = Some (UTC tza (made_at_local yyyy mm dd hh))"
      using \<open>hh \<noteq> 24\<close> by (simp add: made_at_local_def)
  }
qed

text \<open>The validator, with the \<open>Date\<close> part resolved.\<close>

lemma parseArtworkMadeAt_matched:
  assumes "exec_pattern (trim input) = Some (m1, m2, m3, m4, m5)"
    and z: "\<And>t b. \<bar>tza t b\<bar> \<le> msPerDay"
    and sd: "\<And>x. Day (LocalTime tza (UTC tza x)) = Day x"
  shows "parseArtworkMadeAt tza toISOString input =
    (if Number m2 < 1 \<or> Number m2 > 12 then Inl MonthOutOfRange
     else if Number m3 < 1 \<or> Number m3 > 31 then Inl DayOutOfRange
     else if Number m5 \<noteq> 0 then Inl MinutesNotZero
     else if \<not> (Number m4 = 24 \<or> (Number m4 \<ge> 0 \<and> Number m4 \<le> 23)) then Inl HoursOutOfRange
     else Inr (toISOString
                (UTC tza (made_at_local (Number m1) (Number m2) (Number m3) (Number m4)))))"
proof (cases "Number m2 < 1 \<or> Number m2 > 12 \<or> Number m3 < 1 \<or> Number m3 > 31
              \<or> Number m5 \<noteq> 0 \<or> \<not> (Number m4 = 24 \<or> (Number m4 \<ge> 0 \<and> Number m4 \<le> 23))")
  case True
  then show ?thesis
    using assms(1) by (auto simp: parseArtworkMadeAt_def Let_def)
next
  case False
  note n = exec_pattern_numbers [OF assms(1)]
  from False have r: "1 \<le> Number m2" "Number m2 \<le> 12" "1 \<le> Number m3" "Number m3 \<le> 31"
    "Number m5 = 0" "0 \<le> Number m4" "Number m4 \<le> 24"
    by auto
  let ?B = "new_Date tza (Number m1) (Number m2 - 1) (Number m3) 0 0 0 0"
  let ?t = "made_at_local (Number m1) (Number m2) (Number m3) (Number m4)"
  note dt = made_at_date [of "Number m1" "Number m2" "Number m3" "Number m4" tza,
      OF n(1,2) r(1,2) r(3,4) r(6,7) z sd]
  have "parseArtworkMadeAt tza toISOString input
          = Date_toISOString toISOString (Some (UTC tza ?t))"
  proof (cases "Number m4 = 24")
    case True
    have "setHours tza (setDate tza ?B (map_option (\<lambda>d. d + 1) (getDate tza ?B))) 0 0 0 0
          = Some (UTC tza ?t)"
      using dt(2) True by simp
    then show ?thesis
      using assms(1) r True dt(1) by (simp add: parseArtworkMadeAt_def Let_def)
  next
    case False
    have "setHours tza ?B (Number m4) 0 0 0 = Some (UTC tza ?t)"
      using dt(3) False by simp
    then show ?thesis
      using assms(1) r False dt(1) by (simp add: parseArtworkMadeAt_def Let_def)
  qed
  then show ?thesis
    using False by (simp add: Date_toISOString_def)
qed

section \<open>The pattern\<close>




lemma digit_not_space: "is_digit c \<Longrightarrow> \<not> is_space c"
  by (auto simp: is_digit_def is_space_def)

lemma dropWhile_all: "list_all P xs \<Longrightarrow> dropWhile P (xs @ ys) = dropWhile P ys"
  by (induction xs) simp_all

lemma dropWhile_hd: "t \<noteq> [] \<Longrightarrow> \<not> P (hd t) \<Longrightarrow> dropWhile P (t @ ys) = t @ ys"
  by (cases t) simp_all

lemma trim_core:
  assumes "list_all is_space pre" and "list_all is_space post"
    and "t \<noteq> []" and "\<not> is_space (hd t)" and "\<not> is_space (last t)"
  shows "trim (pre @ t @ post) = t"
proof -
  have a: "dropWhile is_space (pre @ t @ post) = t @ post"
    using assms(1,3,4) by (simp add: dropWhile_all dropWhile_hd)
  have r: "rev t \<noteq> []" "\<not> is_space (hd (rev t))"
    using assms(3,5) by (simp_all add: hd_rev)
  have "list_all is_space (rev post)"
    using assms(2) by (simp add: list_all_iff)
  then have "dropWhile is_space (rev post @ rev t) = rev t"
    using dropWhile_hd [of "rev t" is_space "[]"] r by (simp add: dropWhile_all)
  then show ?thesis
    by (simp add: trim_def a)
qed

lemma trim_split:
  "\<exists>pre post. input = pre @ trim input @ post \<and> list_all is_space pre \<and> list_all is_space post"
proof -
  let ?u = "dropWhile is_space input"
  let ?post = "rev (takeWhile is_space (rev ?u))"
  have "trim input @ ?post
        = rev (takeWhile is_space (rev ?u) @ dropWhile is_space (rev ?u))"
    by (simp only: trim_def rev_append)
  also have "\<dots> = ?u"
    by (simp only: takeWhile_dropWhile_id rev_rev_ident)
  finally have u: "?u = trim input @ ?post"
    by simp
  have "input = takeWhile is_space input @ ?u"
    by simp
  then have "input = takeWhile is_space input @ trim input @ ?post"
    using u by simp
  moreover have "list_all is_space (takeWhile is_space input)"
    by (auto simp: list_all_iff dest: set_takeWhileD)
  moreover have "list_all is_space ?post"
    by (auto simp: list_all_iff dest: set_takeWhileD)
  ultimately show ?thesis by blast
qed

lemma digits_append:
  "length m = n \<Longrightarrow> list_all is_digit m \<Longrightarrow> digits n (m @ r) = Some (m, r)"
  by (simp add: digits_def)

lemma lit_Some: "lit c s = Some r \<Longrightarrow> s = c # r"
  by (auto simp: lit_def split: list.splits if_splits)

lemma spaces1_Some:
  assumes "spaces1 s = Some r"
  shows "\<exists>ws. s = ws @ r \<and> ws \<noteq> [] \<and> list_all is_space ws"
proof -
  from assms obtain x xs where s: "s = x # xs" "is_space x" "r = dropWhile is_space xs"
    by (auto simp: spaces1_def split: list.splits if_splits)
  have "s = (x # takeWhile is_space xs) @ r"
    using s by simp
  moreover have "list_all is_space (x # takeWhile is_space xs)"
    using s(2) by (auto simp: list_all_iff dest: set_takeWhileD)
  ultimately show ?thesis by blast
qed

lemma spaces1_append:
  assumes "ws \<noteq> []" and "list_all is_space ws" and "r \<noteq> []" and "\<not> is_space (hd r)"
  shows "spaces1 (ws @ r) = Some r"
proof -
  from assms(1) obtain x xs where ws: "ws = x # xs" by (cases ws) auto
  have "dropWhile is_space (xs @ r) = r"
    using assms(2,3,4) dropWhile_hd [of r is_space "[]"] by (simp add: ws dropWhile_all)
  then show ?thesis
    using assms(2) by (simp add: spaces1_def ws)
qed

lemma exec_pattern_shape:
  assumes "ws \<noteq> []" "list_all is_space ws"
    "length y = 4" "list_all is_digit y" "length mo = 2" "list_all is_digit mo"
    "length d = 2" "list_all is_digit d" "length h = 2" "list_all is_digit h"
    "length mi = 2" "list_all is_digit mi"
  shows "exec_pattern (y @ ''-'' @ mo @ ''-'' @ d @ ws @ h @ '':'' @ mi) = Some (y, mo, d, h, mi)"
proof -
  have hne: "h @ CHR '':'' # mi \<noteq> []" "\<not> is_space (hd (h @ CHR '':'' # mi))"
    using assms(9,10) by (cases h; simp add: digit_not_space)+
  have sp: "spaces1 (ws @ h @ CHR '':'' # mi) = Some (h @ CHR '':'' # mi)"
    using spaces1_append [OF assms(1,2) hne] .
  have mi: "digits 2 mi = Some (mi, [])"
    using digits_append [OF assms(11,12), of "[]"] by simp
  show ?thesis
    unfolding exec_pattern_def
    by (simp add: digits_append assms lit_def sp mi)
qed

lemma exec_pattern_Some_shape:
  assumes "exec_pattern t = Some (y, mo, d, h, mi)"
  shows "\<exists>ws. t = y @ ''-'' @ mo @ ''-'' @ d @ ws @ h @ '':'' @ mi
           \<and> ws \<noteq> [] \<and> list_all is_space ws"
proof -
  from assms obtain r1 r2 r3 r4 r5 r6 r7 r8 where
    a: "digits 4 t = Some (y, r1)" "lit CHR ''-'' r1 = Some r2" "digits 2 r2 = Some (mo, r3)"
       "lit CHR ''-'' r3 = Some r4" "digits 2 r4 = Some (d, r5)" "spaces1 r5 = Some r6"
       "digits 2 r6 = Some (h, r7)" "lit CHR '':'' r7 = Some r8" "digits 2 r8 = Some (mi, [])"
    unfolding exec_pattern_def
    by (auto simp: bind_eq_Some_conv split: if_splits)
  from spaces1_Some [OF a(6)] obtain ws where
    ws: "r5 = ws @ r6" "ws \<noteq> []" "list_all is_space ws" by blast
  have "t = y @ ''-'' @ mo @ ''-'' @ d @ ws @ h @ '':'' @ mi"
    using digits_Some(3) [OF a(1)] lit_Some [OF a(2)] digits_Some(3) [OF a(3)]
      lit_Some [OF a(4)] digits_Some(3) [OF a(5)] ws(1) digits_Some(3) [OF a(7)]
      lit_Some [OF a(8)] digits_Some(3) [OF a(9)]
    by simp
  with ws show ?thesis by blast
qed

lemma made_at_text_exec:
  "made_at_text input y mo d h mi = (exec_pattern (trim input) = Some (y, mo, d, h, mi))"
proof
  assume "made_at_text input y mo d h mi"
  then obtain pre ws post where
    s: "input = pre @ y @ ''-'' @ mo @ ''-'' @ d @ ws @ h @ '':'' @ mi @ post"
      "list_all is_space pre" "list_all is_space post" "ws \<noteq> []" "list_all is_space ws"
      "length y = 4" "list_all is_digit y" "length mo = 2" "list_all is_digit mo"
      "length d = 2" "list_all is_digit d" "length h = 2" "list_all is_digit h"
      "length mi = 2" "list_all is_digit mi"
    unfolding made_at_text_def by blast
  let ?t = "y @ ''-'' @ mo @ ''-'' @ d @ ws @ h @ '':'' @ mi"
  have t1: "?t \<noteq> []"
    by simp
  have t2: "\<not> is_space (hd ?t)"
    using s(6,7) by (cases y) (simp_all add: digit_not_space)
  have t3: "\<not> is_space (last ?t)"
    using s(14,15) by (cases mi rule: rev_cases) (simp_all add: digit_not_space)
  note t = t1 t2 t3
  have "trim input = ?t"
    using trim_core [OF s(2,3) t] by (simp add: s(1))
  then show "exec_pattern (trim input) = Some (y, mo, d, h, mi)"
    using exec_pattern_shape [OF s(4-15)] by simp
next
  assume e: "exec_pattern (trim input) = Some (y, mo, d, h, mi)"
  from exec_pattern_Some_shape [OF e] obtain ws where
    ws: "trim input = y @ ''-'' @ mo @ ''-'' @ d @ ws @ h @ '':'' @ mi"
      "ws \<noteq> []" "list_all is_space ws" by blast
  from trim_split [of input] obtain pre post where
    p: "input = pre @ trim input @ post" "list_all is_space pre" "list_all is_space post"
    by blast
  have "input = pre @ y @ ''-'' @ mo @ ''-'' @ d @ ws @ h @ '':'' @ mi @ post"
    using p(1) ws(1) by simp
  then show "made_at_text input y mo d h mi"
    unfolding made_at_text_def
    using p(2,3) ws(2,3) exec_pattern_groups [OF e] by blast
qed

section \<open>The calendar fields of the local time\<close>

lemma time_fields:
  assumes "0 \<le> h" and "h \<le> 23"
  shows "HourFromTime (MakeDate D (h * msPerHour)) = h"
    and "MinFromTime (MakeDate D (h * msPerHour)) = 0"
    and "SecFromTime (MakeDate D (h * msPerHour)) = 0"
    and "msFromTime (MakeDate D (h * msPerHour)) = 0"
proof -
  have a: "MakeDate D (h * msPerHour) = (D * 24 + h) * 3600000"
    by (simp add: MakeDate_def msPerDay_def msPerHour_def algebra_simps)
  have b: "MakeDate D (h * msPerHour) = (D * 1440 + h * 60) * 60000"
    by (simp add: MakeDate_def msPerDay_def msPerHour_def algebra_simps)
  have c: "MakeDate D (h * msPerHour) = (D * 86400 + h * 3600) * 1000"
    by (simp add: MakeDate_def msPerDay_def msPerHour_def algebra_simps)
  have "(D * 24 + h) mod 24 = h"
    using assms by simp
  then show "HourFromTime (MakeDate D (h * msPerHour)) = h"
    unfolding HourFromTime_def a by (simp add: msPerHour_def)
  have "(D * 1440 + h * 60) mod 60 = 0"
    by simp
  then show "MinFromTime (MakeDate D (h * msPerHour)) = 0"
    unfolding MinFromTime_def b by (simp add: msPerMinute_def)
  have "(D * 86400 + h * 3600) mod 60 = 0"
    by simp
  then show "SecFromTime (MakeDate D (h * msPerHour)) = 0"
    unfolding SecFromTime_def c by (simp add: msPerSecond_def)
  show "msFromTime (MakeDate D (h * msPerHour)) = 0"
    unfolding msFromTime_def c by (simp add: msPerSecond_def)
qed

lemma calendar_fields_MakeDate:
  assumes m: "0 \<le> m" "m \<le> 11"
    and dt: "1 \<le> dt" "dt \<le> DaysInMonth y m"
    and h: "0 \<le> h" "h \<le> 23"
  shows "calendar_fields (MakeDate (MakeDay y m dt) (h * msPerHour))
         = (y, m + 1, dt, h, 0, 0, 0)"
  using fields_MakeDate [OF m dt hour_in_day [OF h]] time_fields [OF h, of "MakeDay y m dt"]
  by (simp add: calendar_fields_def)

text \<open>
  A local time that no transition of the zone skips is the local time of its instant, and
  the local fields of the instant are its calendar fields.
\<close>

lemma local_fields_UTC:
  "LocalTime tza (UTC tza x) = x \<Longrightarrow> local_fields tza (UTC tza x) = calendar_fields x"
  by (simp add: local_fields_def)

lemma MakeDay_date_add: "MakeDay y m (d + k) = MakeDay y m d + k"
  by (simp add: MakeDay_def Let_def)

lemma MakeDay_next_month:
  assumes "0 \<le> m" and "m \<le> 10"
  shows "MakeDay y m d = MakeDay y (m + 1) (d - DaysInMonth y m)"
  using assms month_start_next [OF assms, of y]
  by (simp add: MakeDay_month)

lemma DaysInMonth_range: "28 \<le> DaysInMonth y m" "DaysInMonth y m \<le> 31"
  by (simp_all add: DaysInMonth_def)

lemma made_at_local_midnight:
  "made_at_local y m d 24
     = MakeDate (MakeDay (constructor_year y) (m - 1) (d + 1)) (0 * msPerHour)"
  by (simp add: made_at_local_def MakeDay_date_add)

lemma made_at_local_hour:
  "h \<noteq> 24 \<Longrightarrow>
     made_at_local y m d h = MakeDate (MakeDay (constructor_year y) (m - 1) d) (h * msPerHour)"
  by (simp add: made_at_local_def)

lemma December_days: "DaysInMonth y 11 = 31"
  by (simp add: DaysInMonth_def)

lemma MakeDay_next_year: "MakeDay y 11 (d + 31) = MakeDay (y + 1) 0 d"
  using month_start_last [of y]
  by (simp add: MakeDay_month DayFromYear_step December_days month_start_def)

lemma calendar_fields_next_day:
  assumes "1 \<le> m" and "m \<le> 12" and "1 \<le> d"
    and "d < DaysInMonth (constructor_year y) (m - 1)"
  shows "calendar_fields (made_at_local y m d 24) = (constructor_year y, m, d + 1, 0, 0, 0, 0)"
proof -
  have "calendar_fields
          (MakeDate (MakeDay (constructor_year y) (m - 1) (d + 1)) (0 * msPerHour))
        = (constructor_year y, m - 1 + 1, d + 1, 0, 0, 0, 0)"
    using assms by (intro calendar_fields_MakeDate) simp_all
  then show ?thesis
    by (simp add: made_at_local_midnight)
qed

lemma calendar_fields_month_end:
  assumes m: "1 \<le> m" "m \<le> 12"
  shows "calendar_fields (made_at_local y m (DaysInMonth (constructor_year y) (m - 1)) 24)
         = (if m = 12 then (constructor_year y + 1, 1, 1, 0, 0, 0, 0)
            else (constructor_year y, m + 1, 1, 0, 0, 0, 0))"
proof (cases "m = 12")
  case True
  have "calendar_fields (MakeDate (MakeDay (constructor_year y + 1) 0 1) (0 * msPerHour))
        = (constructor_year y + 1, 0 + 1, 1, 0, 0, 0, 0)"
    using DaysInMonth_range(1) [of "constructor_year y + 1" 0]
    by (intro calendar_fields_MakeDate) simp_all
  then show ?thesis
    using True MakeDay_next_year [of "constructor_year y" 1]
    by (simp add: made_at_local_midnight December_days)
next
  case False
  with m have m': "0 \<le> m - 1" "m - 1 \<le> 10" "0 \<le> m" "m \<le> 11" by simp_all
  have "calendar_fields (MakeDate (MakeDay (constructor_year y) m 1) (0 * msPerHour))
        = (constructor_year y, m + 1, 1, 0, 0, 0, 0)"
    using DaysInMonth_range(1) [of "constructor_year y" m]
    by (intro calendar_fields_MakeDate m') simp_all
  then show ?thesis
    using False
      MakeDay_next_month [OF m'(1,2), of "constructor_year y"
        "DaysInMonth (constructor_year y) (m - 1) + 1"]
    by (simp add: made_at_local_midnight)
qed

lemma calendar_fields_rollover:
  assumes m: "1 \<le> m" "m \<le> 12"
    and d: "DaysInMonth (constructor_year y) (m - 1) < d" "d \<le> 31"
    and h: "0 \<le> h" "h \<le> 24"
  shows "m \<le> 11"
    and "calendar_fields (made_at_local y m d h)
         = (constructor_year y, m + 1,
            d - DaysInMonth (constructor_year y) (m - 1) + (if h = 24 then 1 else 0),
            if h = 24 then 0 else h, 0, 0, 0)"
proof -
  let ?y = "constructor_year y"
  let ?n = "DaysInMonth ?y (m - 1)"
  show m11: "m \<le> 11"
  proof (rule ccontr)
    assume "\<not> m \<le> 11"
    with m have "m - 1 = 11" by simp
    with d December_days [of ?y] show False by simp
  qed
  have m': "0 \<le> m - 1" "m - 1 \<le> 10" "0 \<le> m" "m \<le> 11"
    using m m11 by simp_all
  have next_month: "MakeDay ?y (m - 1) k = MakeDay ?y m (k - ?n)" for k
    using MakeDay_next_month [OF m'(1,2), of ?y k] by simp
  have len: "28 \<le> ?n" "28 \<le> DaysInMonth ?y m"
    using DaysInMonth_range(1) by simp_all
  show "calendar_fields (made_at_local y m d h)
         = (?y, m + 1, d - ?n + (if h = 24 then 1 else 0), if h = 24 then 0 else h, 0, 0, 0)"
  proof (cases "h = 24")
    case True
    have "calendar_fields (MakeDate (MakeDay ?y m (d + 1 - ?n)) (0 * msPerHour))
          = (?y, m + 1, d + 1 - ?n, 0, 0, 0, 0)"
      using d len by (intro calendar_fields_MakeDate m') simp_all
    then show ?thesis
      using True by (simp add: made_at_local_midnight next_month)
  next
    case False
    with h have h': "0 \<le> h" "h \<le> 23" by simp_all
    have "calendar_fields (MakeDate (MakeDay ?y m (d - ?n)) (h * msPerHour))
          = (?y, m + 1, d - ?n, h, 0, 0, 0)"
      using d len by (intro calendar_fields_MakeDate m' h') simp_all
    then show ?thesis
      using False by (simp add: made_at_local_hour next_month)
  qed
qed

section \<open>Examples\<close>

lemma exec_examples:
  "exec_pattern (trim ''2024-01-15 24:00'') = Some (''2024'', ''01'', ''15'', ''24'', ''00'')"
  "exec_pattern (trim ''2024-01-15 23:30'') = Some (''2024'', ''01'', ''15'', ''23'', ''30'')"
  "exec_pattern (trim ''2024-13-01 24:00'') = Some (''2024'', ''13'', ''01'', ''24'', ''00'')"
  "exec_pattern (trim ''2024-02-31 10:00'') = Some (''2024'', ''02'', ''31'', ''10'', ''00'')"
  "exec_pattern (trim ''abc'') = None"
  "exec_pattern (trim ''0024-01-15 24:00'') = Some (''0024'', ''01'', ''15'', ''24'', ''00'')"
  "exec_pattern (trim ''0099-12-31 24:00'') = Some (''0099'', ''12'', ''31'', ''24'', ''00'')"
  "exec_pattern (trim ''0000-02-29 10:00'') = Some (''0000'', ''02'', ''29'', ''10'', ''00'')"
  "exec_pattern (trim ''0000-02-30 10:00'') = Some (''0000'', ''02'', ''30'', ''10'', ''00'')"
  by code_simp+

lemma Number_examples:
  "Number ''2024'' = 2024" "Number ''00'' = 0" "Number ''01'' = 1" "Number ''02'' = 2"
  "Number ''10'' = 10" "Number ''13'' = 13" "Number ''15'' = 15" "Number ''23'' = 23"
  "Number ''24'' = 24" "Number ''30'' = 30" "Number ''31'' = 31" "Number ''0024'' = 24"
  "Number ''0099'' = 99" "Number ''0000'' = 0" "Number ''12'' = 12" "Number ''29'' = 29"
  by (simp_all add: Number_def)

lemma fixed_zone_day: "\<bar>fixed_zone 0 t b\<bar> \<le> msPerDay" "\<bar>fixed_zone 32400000 t b\<bar> \<le> msPerDay"
  by (simp_all add: fixed_zone_def msPerDay_def)

lemma fixed_zone_local: "LocalTime (fixed_zone offset) (UTC (fixed_zone offset) x) = x"
  by (simp add: LocalTime_def UTC_def fixed_zone_def)

lemma UTC_fixed_zone: "UTC (fixed_zone offset) x = x - offset"
  by (simp add: UTC_def fixed_zone_def)

lemma made_at_local_examples:
  "made_at_local 2024 1 15 24 = 1705363200000"
  "made_at_local 2024 2 31 10 = 1709373600000"
  "made_at_local 24 1 15 24 = - 1450396800000"
  "made_at_local 99 12 31 24 = 946684800000"
  "made_at_local 0 2 29 10 = - 2203855200000"
  "made_at_local 0 2 30 10 = - 2203768800000"
  by code_simp+

lemma DaysInMonth_examples:
  "DaysInMonth 2024 0 = 31" "DaysInMonth 2024 1 = 29" "DaysInMonth 1924 0 = 31"
  "DaysInMonth 1900 1 = 28" "DaysInMonth 0 1 = 29" "DaysInMonth 1999 11 = 31"
  by (simp_all add: DaysInMonth_def DaysInYear_def)

lemma constructor_year_examples:
  "constructor_year 2024 = 2024" "constructor_year 24 = 1924" "constructor_year 99 = 1999"
  "constructor_year 0 = 1900"
  by (simp_all add: constructor_year_def)

lemma fixed_zone_same_day:
  "Day (LocalTime (fixed_zone offset) (UTC (fixed_zone offset) x)) = Day x"
  by (simp add: fixed_zone_local)

lemma local_fields_fixed_zone:
  "local_fields (fixed_zone offset) (x - offset) = calendar_fields x"
  by (simp add: local_fields_def LocalTime_def fixed_zone_def)

lemma known_ISO_examples:
  "known_ISO (- 2203855200000) = ''1900-03-01T10:00:00.000Z''"
  "known_ISO (- 2203768800000) = ''1900-03-02T10:00:00.000Z''"
  "known_ISO (- 1450396800000) = ''1924-01-16T00:00:00.000Z''"
  "known_ISO 946684800000 = ''2000-01-01T00:00:00.000Z''"
  "known_ISO 1705330800000 = ''2024-01-15T15:00:00.000Z''"
  "known_ISO 1709341200000 = ''2024-03-02T01:00:00.000Z''"
  by (simp_all add: known_ISO_def)

lemma calendar_fields_examples:
  "calendar_fields (made_at_local 2024 1 15 24) = (2024, 1, 16, 0, 0, 0, 0)"
  "calendar_fields (made_at_local 24 1 15 24) = (1924, 1, 16, 0, 0, 0, 0)"
  "calendar_fields (made_at_local 99 12 31 24) = (2000, 1, 1, 0, 0, 0, 0)"
  "calendar_fields (made_at_local 2024 2 31 10) = (2024, 3, 2, 10, 0, 0, 0)"
  "calendar_fields (made_at_local 0 2 29 10) = (1900, 3, 1, 10, 0, 0, 0)"
  "calendar_fields (made_at_local 0 2 30 10) = (1900, 3, 2, 10, 0, 0, 0)"
proof -
  show "calendar_fields (made_at_local 2024 1 15 24) = (2024, 1, 16, 0, 0, 0, 0)"
    using calendar_fields_next_day [of 1 15 2024]
    by (simp add: constructor_year_examples DaysInMonth_examples)
  show "calendar_fields (made_at_local 24 1 15 24) = (1924, 1, 16, 0, 0, 0, 0)"
    using calendar_fields_next_day [of 1 15 24]
    by (simp add: constructor_year_examples DaysInMonth_examples)
  show "calendar_fields (made_at_local 99 12 31 24) = (2000, 1, 1, 0, 0, 0, 0)"
    using calendar_fields_month_end [of 12 99]
    by (simp add: constructor_year_examples DaysInMonth_examples)
  show "calendar_fields (made_at_local 2024 2 31 10) = (2024, 3, 2, 10, 0, 0, 0)"
    using calendar_fields_rollover(2) [of 2 2024 31 10]
    by (simp add: constructor_year_examples DaysInMonth_examples)
  show "calendar_fields (made_at_local 0 2 29 10) = (1900, 3, 1, 10, 0, 0, 0)"
    using calendar_fields_rollover(2) [of 2 0 29 10]
    by (simp add: constructor_year_examples DaysInMonth_examples)
  show "calendar_fields (made_at_local 0 2 30 10) = (1900, 3, 2, 10, 0, 0, 0)"
    using calendar_fields_rollover(2) [of 2 0 30 10]
    by (simp add: constructor_year_examples DaysInMonth_examples)
qed

section \<open>The sample zones\<close>

lemma summer_zone_day: "\<bar>summer_zone t b\<bar> \<le> msPerDay"
  by (simp add: summer_zone_def msPerDay_def)

lemma summer_zone_same_day: "Day (LocalTime summer_zone (UTC summer_zone x)) = Day x"
proof -
  consider "x < 1711846800000" | "1711846800000 \<le> x" "x < 1711850400000"
    | "1711850400000 \<le> x"
    by linarith
  then show ?thesis
  proof cases
    case 1
    then show ?thesis
      by (simp add: LocalTime_def UTC_def summer_zone_def)
  next
    case 2
    have a: "x div 86400000 = 19813"
      using 2 by (simp add: int_div_pos_eq)
    have b: "(x + 3600000) div 86400000 = 19813"
      using 2 by (simp add: int_div_pos_eq)
    show ?thesis
      using 2 a b by (simp add: LocalTime_def UTC_def summer_zone_def Day_def msPerDay_def)
  next
    case 3
    then show ?thesis
      by (simp add: LocalTime_def UTC_def summer_zone_def)
  qed
qed

lemma summer_zone_before:
  "x < 1711846800000 \<Longrightarrow> UTC summer_zone x = x"
  "x < 1711846800000 \<Longrightarrow> LocalTime summer_zone x = x"
  by (simp_all add: LocalTime_def UTC_def summer_zone_def)





section \<open>The checks of the validator\<close>




section \<open>Days past the end of the month\<close>

text \<open>
  C9 as stated fails. The month whose length the day is counted from is the month of the
  year as the \<open>Date\<close> constructor reads it, not of the entered year. February of the year
  0 has 29 days, and February 1900 has 28: in the zone of UTC the accepted text
  \<open>0000-02-29 10:00\<close>, whose day is not past the end of its month, gives local 1900-03-01
  at 10:00, and \<open>0000-02-30 10:00\<close>, one day past the end, gives local 1900-03-02 at 10:00.
\<close>

theorem made_at_rollover_year_below_100:
  "DaysInMonth 0 1 = 29
   \<and> parseArtworkMadeAt (fixed_zone 0) known_ISO ''0000-02-29 10:00''
     = Inr (known_ISO (- 2203855200000))
   \<and> known_ISO (- 2203855200000) = ''1900-03-01T10:00:00.000Z''
   \<and> local_fields (fixed_zone 0) (- 2203855200000) = (1900, 3, 1, 10, 0, 0, 0)
   \<and> parseArtworkMadeAt (fixed_zone 0) known_ISO ''0000-02-30 10:00''
     = Inr (known_ISO (- 2203768800000))
   \<and> known_ISO (- 2203768800000) = ''1900-03-02T10:00:00.000Z''
   \<and> local_fields (fixed_zone 0) (- 2203768800000) = (1900, 3, 2, 10, 0, 0, 0)"
proof -
  have 1: "parseArtworkMadeAt (fixed_zone 0) known_ISO ''0000-02-29 10:00''
     = Inr (known_ISO (- 2203855200000))"
    using parseArtworkMadeAt_matched
      [OF exec_examples(8) fixed_zone_day(1) fixed_zone_same_day, of known_ISO]
    by (simp add: Number_examples made_at_local_examples UTC_fixed_zone)
  have 2: "parseArtworkMadeAt (fixed_zone 0) known_ISO ''0000-02-30 10:00''
     = Inr (known_ISO (- 2203768800000))"
    using parseArtworkMadeAt_matched
      [OF exec_examples(9) fixed_zone_day(1) fixed_zone_same_day, of known_ISO]
    by (simp add: Number_examples made_at_local_examples UTC_fixed_zone)
  have 3: "local_fields (fixed_zone 0) (- 2203855200000) = (1900, 3, 1, 10, 0, 0, 0)"
    using local_fields_fixed_zone [of 0 "made_at_local 0 2 29 10"]
    by (simp add: calendar_fields_examples) (simp add: made_at_local_examples)
  have 4: "local_fields (fixed_zone 0) (- 2203768800000) = (1900, 3, 2, 10, 0, 0, 0)"
    using local_fields_fixed_zone [of 0 "made_at_local 0 2 30 10"]
    by (simp add: calendar_fields_examples) (simp add: made_at_local_examples)
  show ?thesis
    using DaysInMonth_examples(5) 1 2 3 4 known_ISO_examples(1,2) by (intro conjI)
qed

text \<open>
  C9 as amended. In a zone whose offset is within a day of UTC and in which a transition
  never moves a local time to another day, the validator accepts every day from 1 to 31
  in every month: acceptance does not look at the length of the month. When the day is
  past the end of the month of the year as the \<open>Date\<close> constructor reads it (the entered
  year from 100 on, 1900 plus the entered year from 0 to 99), the date it gives is the
  instant of a local time in the following month of that year, on the day counted on from
  the end of the given month (one more for the hour 24); the local fields of the instant
  are the calendar fields of that local time, unless a transition of the zone skips it.
  The text \<open>2024-02-31 10:00\<close> is accepted and gives local 2024-03-02 at 10:00, and
  \<open>0000-02-30 10:00\<close> gives local 1900-03-02 at 10:00.
\<close>

theorem parseArtworkMadeAt_day_rollover:
  assumes z: "\<And>t b. \<bar>tza t b\<bar> \<le> msPerDay"
    and sd: "\<And>x. Day (LocalTime tza (UTC tza x)) = Day x"
  shows
   "(\<forall>y mo d h mi.
        made_at_text input y mo d h mi
        \<and> 1 \<le> Number mo \<and> Number mo \<le> 12 \<and> 1 \<le> Number d \<and> Number d \<le> 31
        \<and> Number mi = 0 \<and> Number h \<le> 24 \<longrightarrow>
        parseArtworkMadeAt tza toISOString input
          = Inr (toISOString
                  (UTC tza (made_at_local (Number y) (Number mo) (Number d) (Number h)))))
    \<and> (\<forall>y m d h.
          1 \<le> m \<and> m \<le> 12 \<and> DaysInMonth (constructor_year y) (m - 1) < d \<and> d \<le> 31
          \<and> 0 \<le> h \<and> h \<le> 24 \<longrightarrow>
          m \<le> 11
          \<and> calendar_fields (made_at_local y m d h)
              = (constructor_year y, m + 1,
                 d - DaysInMonth (constructor_year y) (m - 1) + (if h = 24 then 1 else 0),
                 if h = 24 then 0 else h, 0, 0, 0))
    \<and> (\<forall>x. LocalTime tza (UTC tza x) = x \<longrightarrow>
          local_fields tza (UTC tza x) = calendar_fields x)
    \<and> (\<forall>y. constructor_year y = (if 0 \<le> y \<and> y \<le> 99 then 1900 + y else y))
    \<and> parseArtworkMadeAt tza toISOString ''2024-02-31 10:00''
        = Inr (toISOString (UTC tza (made_at_local 2024 2 31 10)))
    \<and> calendar_fields (made_at_local 2024 2 31 10) = (2024, 3, 2, 10, 0, 0, 0)
    \<and> parseArtworkMadeAt tza toISOString ''0000-02-30 10:00''
        = Inr (toISOString (UTC tza (made_at_local 0 2 30 10)))
    \<and> calendar_fields (made_at_local 0 2 30 10) = (1900, 3, 2, 10, 0, 0, 0)"
proof -
  note matched = parseArtworkMadeAt_matched [OF _ z sd]
  have 1: "\<forall>y mo d h mi.
        made_at_text input y mo d h mi
        \<and> 1 \<le> Number mo \<and> Number mo \<le> 12 \<and> 1 \<le> Number d \<and> Number d \<le> 31
        \<and> Number mi = 0 \<and> Number h \<le> 24 \<longrightarrow>
        parseArtworkMadeAt tza toISOString input
          = Inr (toISOString
                  (UTC tza (made_at_local (Number y) (Number mo) (Number d) (Number h))))"
  proof (intro allI impI)
    fix y mo d h mi
    assume a: "made_at_text input y mo d h mi
        \<and> 1 \<le> Number mo \<and> Number mo \<le> 12 \<and> 1 \<le> Number d \<and> Number d \<le> 31
        \<and> Number mi = 0 \<and> Number h \<le> 24"
    then have e: "exec_pattern (trim input) = Some (y, mo, d, h, mi)"
      by (simp add: made_at_text_exec)
    have "0 \<le> Number h" using exec_pattern_numbers(5) [OF e] .
    with a show "parseArtworkMadeAt tza toISOString input
          = Inr (toISOString
                  (UTC tza (made_at_local (Number y) (Number mo) (Number d) (Number h))))"
      using matched [OF e, of toISOString] by auto
  qed
  have 2: "\<forall>y m d h.
          1 \<le> m \<and> m \<le> 12 \<and> DaysInMonth (constructor_year y) (m - 1) < d \<and> d \<le> 31
          \<and> 0 \<le> h \<and> h \<le> 24 \<longrightarrow>
          m \<le> 11
          \<and> calendar_fields (made_at_local y m d h)
              = (constructor_year y, m + 1,
                 d - DaysInMonth (constructor_year y) (m - 1) + (if h = 24 then 1 else 0),
                 if h = 24 then 0 else h, 0, 0, 0)"
    using calendar_fields_rollover by blast
  have 3: "\<forall>x. LocalTime tza (UTC tza x) = x \<longrightarrow>
          local_fields tza (UTC tza x) = calendar_fields x"
    using local_fields_UTC by blast
  have 4: "\<forall>y. constructor_year y = (if 0 \<le> y \<and> y \<le> 99 then 1900 + y else y)"
    by (simp add: constructor_year_def)
  have 5: "parseArtworkMadeAt tza toISOString ''2024-02-31 10:00''
        = Inr (toISOString (UTC tza (made_at_local 2024 2 31 10)))"
    using matched [OF exec_examples(4)] by (simp add: Number_examples)
  have 6: "parseArtworkMadeAt tza toISOString ''0000-02-30 10:00''
        = Inr (toISOString (UTC tza (made_at_local 0 2 30 10)))"
    using matched [OF exec_examples(9)] by (simp add: Number_examples)
  show ?thesis
    using 1 2 3 4 5 calendar_fields_examples(4) 6 calendar_fields_examples(6)
    by (intro conjI)
qed

theorem parseArtworkMadeAt_day_rollover_witness:
  "(\<forall>t b. \<bar>fixed_zone 32400000 t b\<bar> \<le> msPerDay)
   \<and> (\<forall>x. Day (LocalTime (fixed_zone 32400000) (UTC (fixed_zone 32400000) x)) = Day x)
   \<and> parseArtworkMadeAt (fixed_zone 32400000) known_ISO ''2024-02-31 10:00''
       = Inr ''2024-03-02T01:00:00.000Z''
   \<and> local_fields (fixed_zone 32400000) 1709341200000 = (2024, 3, 2, 10, 0, 0, 0)
   \<and> (\<forall>t b. \<bar>summer_zone t b\<bar> \<le> msPerDay)
   \<and> (\<forall>x. Day (LocalTime summer_zone (UTC summer_zone x)) = Day x)
   \<and> parseArtworkMadeAt summer_zone known_ISO ''2024-02-31 10:00''
       = Inr ''2024-03-02T10:00:00.000Z''
   \<and> local_fields summer_zone 1709373600000 = (2024, 3, 2, 10, 0, 0, 0)"
proof -
  have z: "\<bar>fixed_zone 32400000 t b\<bar> \<le> msPerDay" for t b
    by (simp add: fixed_zone_def msPerDay_def)
  have sd: "Day (LocalTime (fixed_zone 32400000) (UTC (fixed_zone 32400000) x)) = Day x" for x
    by (simp add: LocalTime_def UTC_def fixed_zone_def)
  note t = parseArtworkMadeAt_day_rollover [OF z sd, of "''2024-02-31 10:00''" known_ISO]
  have v: "UTC (fixed_zone 32400000) (made_at_local 2024 2 31 10) = 1709341200000"
    by (simp add: UTC_def fixed_zone_def made_at_local_examples)
  have k: "known_ISO 1709341200000 = ''2024-03-02T01:00:00.000Z''"
    by (simp add: known_ISO_def)
  have r: "LocalTime (fixed_zone 32400000)
             (UTC (fixed_zone 32400000) (made_at_local 2024 2 31 10))
           = made_at_local 2024 2 31 10"
    by (simp add: LocalTime_def UTC_def fixed_zone_def)
  have 1: "parseArtworkMadeAt (fixed_zone 32400000) known_ISO ''2024-02-31 10:00''
       = Inr ''2024-03-02T01:00:00.000Z''"
    using t v k by (elim conjE) (simp only:)
  have "\<forall>x. LocalTime (fixed_zone 32400000) (UTC (fixed_zone 32400000) x) = x \<longrightarrow>
          local_fields (fixed_zone 32400000) (UTC (fixed_zone 32400000) x)
            = calendar_fields x"
    using t by (elim conjE)
  then have "local_fields (fixed_zone 32400000)
          (UTC (fixed_zone 32400000) (made_at_local 2024 2 31 10))
        = calendar_fields (made_at_local 2024 2 31 10)"
    using r by (elim allE impE)
  moreover have c: "calendar_fields (made_at_local 2024 2 31 10) = (2024, 3, 2, 10, 0, 0, 0)"
    using t by (elim conjE)
  ultimately have 2: "local_fields (fixed_zone 32400000) 1709341200000
                        = (2024, 3, 2, 10, 0, 0, 0)"
    using v by (simp only:)
  have z': "\<bar>summer_zone t b\<bar> \<le> msPerDay" for t b
    by (rule summer_zone_day)
  have sd': "Day (LocalTime summer_zone (UTC summer_zone x)) = Day x" for x
    by (rule summer_zone_same_day)
  note t' = parseArtworkMadeAt_day_rollover [OF z' sd', of "''2024-02-31 10:00''" known_ISO]
  have v': "UTC summer_zone (made_at_local 2024 2 31 10) = 1709373600000"
    by (simp add: made_at_local_examples summer_zone_before)
  have k': "known_ISO 1709373600000 = ''2024-03-02T10:00:00.000Z''"
    by (simp add: known_ISO_def)
  have r': "LocalTime summer_zone (UTC summer_zone (made_at_local 2024 2 31 10))
           = made_at_local 2024 2 31 10"
    by (simp add: made_at_local_examples summer_zone_before)
  have 3: "parseArtworkMadeAt summer_zone known_ISO ''2024-02-31 10:00''
       = Inr ''2024-03-02T10:00:00.000Z''"
    using t' v' k' by (elim conjE) (simp only:)
  have "\<forall>x. LocalTime summer_zone (UTC summer_zone x) = x \<longrightarrow>
          local_fields summer_zone (UTC summer_zone x) = calendar_fields x"
    using t' by (elim conjE)
  then have "local_fields summer_zone (UTC summer_zone (made_at_local 2024 2 31 10))
        = calendar_fields (made_at_local 2024 2 31 10)"
    using r' by (elim allE impE)
  then have 4: "local_fields summer_zone 1709373600000 = (2024, 3, 2, 10, 0, 0, 0)"
    using v' c by (simp only:)
  show ?thesis
    using z sd 1 2 z' sd' 3 4 by (intro conjI allI)
qed

end
